theory Spec2Isabelle
  imports Complex_Main "HOL-Library.Log_Nat"
begin

section \<open>Data model\<close>

text \<open>
  The mixing code of \<^verbatim>\<open>src/utils.py\<close> computes with Python floats (seconds) and talks to
  two external programs, \<^verbatim>\<open>ffprobe\<close> and \<^verbatim>\<open>ffmpeg\<close>. A float is modelled by the rational
  it denotes. Comparison, \<^verbatim>\<open>max\<close> and \<^verbatim>\<open>int\<close> are exact on floats; \<^verbatim>\<open>+\<close>, \<^verbatim>\<open>-\<close> and \<^verbatim>\<open>*\<close>
  round their exact result to the nearest double (\<open>fadd\<close>, \<open>fsub\<close>, \<open>fmul\<close> below).
  Infinities and NaN are outside the model. The command lines and the
  \<^verbatim>\<open>-filter_complex\<close> strings are kept as structured values with the numbers the
  f-strings print, not as text.
\<close>

type_synonym path = string
type_synonym seconds = rat

text \<open>One entry of \<^verbatim>\<open>fade_durations\<close>: the dict \<^verbatim>\<open>{'fadeIn': .., 'fadeOut': ..}\<close>.\<close>

record fade_info =
  fadeIn :: seconds
  fadeOut :: seconds

text \<open>
  \<^verbatim>\<open>afade=t=in:d={fade_in}\<close> and \<^verbatim>\<open>afade=t=out:st={fade_out_start}:d={fade_out}\<close>.
\<close>

datatype afilter =
    AfadeIn seconds
  | AfadeOut seconds seconds

text \<open>
  Stream labels of the filter graph: \<^verbatim>\<open>[i:a]\<close>, \<^verbatim>\<open>[faded{i}]\<close>, \<^verbatim>\<open>[delayed{i}]\<close>,
  \<^verbatim>\<open>[mixed{i}]\<close> and \<^verbatim>\<open>[out]\<close>.
\<close>

datatype stream = Input nat | Faded nat | Delayed nat | Mixed nat | Out

text \<open>
  The entries of \<^verbatim>\<open>filter_complex\<close>:
  \<^item> \<^verbatim>\<open>[{i}:a]{','.join(fade_filters)}[faded{i}]\<close>
  \<^item> \<^verbatim>\<open>{track_ref}adelay={ms}|{ms}[delayed{i}]\<close>
  \<^item> \<^verbatim>\<open>{current_output}[delayed{i}]amix=inputs=2:duration=longest[mixed{i}]\<close>
  \<^item> \<^verbatim>\<open>{current_output}aresample=44100[out]\<close>
\<close>

datatype node =
    Fade stream "afilter list" stream
  | Adelay stream int int stream
  | Amix stream stream stream
  | Aresample stream nat stream

text \<open>The external commands the code runs with \<^verbatim>\<open>subprocess.run\<close>.\<close>

datatype command =
    Ffprobe path
  | FfmpegExtract path seconds seconds path
  | FfmpegFade path "afilter list" path
  | FfmpegMix "path list" "node list" stream path
  | FfmpegConcat "path list" path

text \<open>
  What \<^verbatim>\<open>ffprobe\<close> answers for a file: a non-zero exit, text that \<^verbatim>\<open>float\<close> rejects,
  or a duration.
\<close>

datatype probe_result = ProbeExit | ProbeText | ProbeSeconds seconds

text \<open>
  The audio engine is a parameter of the model: what \<^verbatim>\<open>ffprobe\<close> reports for each file,
  whether an \<^verbatim>\<open>ffmpeg\<close> command exits with code 0, and whether its output file exists
  and is not empty afterwards. The files are not changed while a graph is built, so
  probing a file twice gives the same answer.
\<close>

record engine =
  ffprobe :: "path \<Rightarrow> probe_result"
  exit_ok :: "command \<Rightarrow> bool"
  output_ok :: "command \<Rightarrow> bool"

text \<open>The exceptions the code raises, and the two built-in ones it can meet.\<close>

datatype error =
    DurationFailed
  | InvalidDuration
  | FadeFailed
  | ConcatFailed
  | IndexError
  | ValueError
  | AllServicesFailed
  | DownloadFailed nat
  | InputMissing
  | ExtractionFailed
  | OutputFailed

text \<open>
  A computation returns the commands it ran, in order, and either the exception it
  raised or its value.
\<close>

type_synonym 'a run = "command list \<times> (error + 'a)"

definition and_then :: "'a run \<Rightarrow> ('a \<Rightarrow> 'b run) \<Rightarrow> 'b run" where
  "and_then m f =
     (case m of
        (t, Inl e) \<Rightarrow> (t, Inl e)
      | (t, Inr v) \<Rightarrow> (case f v of (t', r) \<Rightarrow> (t @ t', r)))"

section \<open>Float arithmetic\<close>

text \<open>
  Rounding to the nearest IEEE 754 binary64 value, ties to even. A positive rational
  \<open>a\<close> with \<open>2 ^ e \<le> a < 2 ^ (e + 1)\<close> is rounded to a multiple of \<open>2 ^ (e - 52)\<close>, and to a
  multiple of \<open>2 ^ - 1074\<close> in the subnormal range. Results beyond the largest double,
  which Python turns into \<^verbatim>\<open>inf\<close>, are outside the model.
\<close>

definition round_half_even :: "rat \<Rightarrow> int" where
  "round_half_even m =
     (let f = \<lfloor>m\<rfloor>; r = m - of_int f
      in if r < 1 / 2 then f else if 1 / 2 < r then f + 1 else if even f then f else f + 1)"

definition binary_exponent :: "rat \<Rightarrow> int" where
  "binary_exponent a =
     (let (p, q) = quotient_of a;
          e = int (floorlog 2 (nat p)) - int (floorlog 2 (nat q))
      in if 2 powi e \<le> a then e else e - 1)"

definition round_double :: "rat \<Rightarrow> rat" where
  "round_double x =
     (if x = 0 then 0
      else
        let q = max (binary_exponent \<bar>x\<bar> - 52) (- 1074)
        in sgn x * of_int (round_half_even (\<bar>x\<bar> / 2 powi q)) * 2 powi q)"

text \<open>Python's \<^verbatim>\<open>+\<close>, \<^verbatim>\<open>-\<close> and \<^verbatim>\<open>*\<close> on floats; an \<^verbatim>\<open>int\<close> operand is converted first.\<close>

definition fadd :: "seconds \<Rightarrow> seconds \<Rightarrow> seconds" where
  "fadd x y = round_double (x + y)"

definition fsub :: "seconds \<Rightarrow> seconds \<Rightarrow> seconds" where
  "fsub x y = round_double (x - y)"

definition fmul :: "seconds \<Rightarrow> seconds \<Rightarrow> seconds" where
  "fmul x y = round_double (x * y)"

section \<open>The functions of \<^verbatim>\<open>utils.py\<close>\<close>

text \<open>Python's \<^verbatim>\<open>int\<close> on a float truncates toward zero.\<close>

definition py_int :: "rat \<Rightarrow> int" where
  "py_int x = (if 0 \<le> x then \<lfloor>x\<rfloor> else \<lceil>x\<rceil>)"

text \<open>\<^verbatim>\<open>get_audio_duration\<close>, lines 330-344.\<close>

definition get_audio_duration :: "engine \<Rightarrow> path \<Rightarrow> seconds run" where
  "get_audio_duration eng audio_file =
     ([Ffprobe audio_file],
      case ffprobe eng audio_file of
        ProbeExit \<Rightarrow> Inl DurationFailed
      | ProbeText \<Rightarrow> Inl InvalidDuration
      | ProbeSeconds d \<Rightarrow> Inr d)"

text \<open>
  The filter list both \<^verbatim>\<open>apply_fades\<close> (lines 306-310) and
  \<^verbatim>\<open>create_overlapping_mixtape\<close> (lines 397-401) build.
\<close>

definition fade_filters :: "seconds \<Rightarrow> seconds \<Rightarrow> seconds \<Rightarrow> afilter list" where
  "fade_filters fade_in fade_out fade_out_start =
     (if fade_in > 0 then [AfadeIn fade_in] else []) @
     (if fade_out > 0 then [AfadeOut fade_out_start fade_out] else [])"

text \<open>\<^verbatim>\<open>fade_out_start = max(0, total_duration - fade_out)\<close>, lines 304 and 394.\<close>

definition fade_out_start :: "seconds \<Rightarrow> seconds \<Rightarrow> seconds" where
  "fade_out_start total_duration fade_out = max 0 (fsub total_duration fade_out)"

text \<open>\<^verbatim>\<open>apply_fades\<close>, lines 302-328.\<close>

definition apply_fades :: "engine \<Rightarrow> path \<Rightarrow> path \<Rightarrow> seconds \<Rightarrow> seconds \<Rightarrow> seconds \<Rightarrow> path run" where
  "apply_fades eng input_file output_file fade_in fade_out total_duration =
     (let filters = fade_filters fade_in fade_out (fade_out_start total_duration fade_out);
          cmd = FfmpegFade input_file filters output_file
      in ([cmd], if exit_ok eng cmd then Inr output_file else Inl FadeFailed))"

text \<open>
  \<^verbatim>\<open>concatenate_audio\<close>, lines 346-368. The list file it writes holds one line per
  input file, in the order of \<^verbatim>\<open>input_files\<close>; the command carries that list.
\<close>

definition concatenate_audio :: "engine \<Rightarrow> path list \<Rightarrow> path \<Rightarrow> path run" where
  "concatenate_audio eng input_files output_file =
     (let cmd = FfmpegConcat input_files output_file
      in ([cmd], if exit_ok eng cmd then Inr output_file else Inl ConcatFailed))"

text \<open>
  The inner loop of lines 413-416: probe each earlier segment again and add its duration
  to the running total, which starts at 0.
\<close>

fun total_previous_duration :: "engine \<Rightarrow> path list \<Rightarrow> seconds \<Rightarrow> seconds run" where
  "total_previous_duration eng [] tot = ([], Inr tot)"
| "total_previous_duration eng (f # fs) tot =
     and_then (get_audio_duration eng f)
       (\<lambda>prev_duration. total_previous_duration eng fs (fadd tot prev_duration))"

text \<open>\<^verbatim>\<open>delay_time = max(0, total_previous_duration - (overlap_duration * i))\<close>, line 418.\<close>

definition delay_time :: "seconds \<Rightarrow> seconds \<Rightarrow> nat \<Rightarrow> seconds" where
  "delay_time tot overlap_duration i = max 0 (fsub tot (fmul overlap_duration (of_nat i)))"

text \<open>
  Lines 413-418 together: the delay of segment \<open>i\<close>, from the durations of the segments
  \<open>0 .. i - 1\<close> as the engine measures them.
\<close>

definition segment_delay_time :: "engine \<Rightarrow> path list \<Rightarrow> seconds \<Rightarrow> nat \<Rightarrow> seconds run" where
  "segment_delay_time eng segment_files overlap_duration i =
     and_then (total_previous_duration eng (take i segment_files) 0)
       (\<lambda>tot. ([], Inr (delay_time tot overlap_duration i)))"

text \<open>
  Lines 396-407: the fade stage of segment \<open>i\<close>, and the label the segment is referred
  to afterwards.
\<close>

definition fade_stage :: "nat \<Rightarrow> seconds \<Rightarrow> seconds \<Rightarrow> seconds \<Rightarrow> node list \<times> stream" where
  "fade_stage i fade_in fade_out segment_duration =
     (let filters = fade_filters fade_in fade_out (fade_out_start segment_duration fade_out)
      in if filters \<noteq> [] then ([Fade (Input i) filters (Faded i)], Faded i)
         else ([], Input i))"

text \<open>
  Lines 421-423: the delay \<^verbatim>\<open>int(delay_time * 1000)\<close>, written for both channels, and the
  binary mix of segment \<open>i > 0\<close>.
\<close>

definition mix_stage :: "nat \<Rightarrow> stream \<Rightarrow> stream \<Rightarrow> seconds \<Rightarrow> node list \<times> stream" where
  "mix_stage i track_ref current_output delay =
     ([Adelay track_ref (py_int (fmul delay 1000)) (py_int (fmul delay 1000)) (Delayed i),
       Amix current_output (Delayed i) (Mixed i)],
      Mixed i)"

text \<open>
  One iteration of the loop of lines 388-423, on the state
  \<^verbatim>\<open>(filter_complex, current_output)\<close>. \<^verbatim>\<open>fade_durations[i]\<close> raises IndexError when the
  list is too short.
\<close>

definition segment_step ::
  "engine \<Rightarrow> path list \<Rightarrow> fade_info list \<Rightarrow> seconds \<Rightarrow> nat \<Rightarrow> node list \<times> stream
     \<Rightarrow> (node list \<times> stream) run" where
  "segment_step eng segment_files fade_durations overlap_duration i st =
     (if length fade_durations \<le> i then ([], Inl IndexError)
      else
        let song_info = fade_durations ! i in
        and_then (get_audio_duration eng (segment_files ! i))
          (\<lambda>segment_duration.
             let (faded, track_ref) =
                   fade_stage i (fadeIn song_info) (fadeOut song_info) segment_duration
             in if i = 0 then ([], Inr (fst st @ faded, track_ref))
                else
                  and_then (segment_delay_time eng segment_files overlap_duration i)
                    (\<lambda>delay.
                       let (mixed, current_output) = mix_stage i track_ref (snd st) delay
                       in ([], Inr (fst st @ faded @ mixed, current_output)))))"

fun segment_loop ::
  "engine \<Rightarrow> path list \<Rightarrow> fade_info list \<Rightarrow> seconds \<Rightarrow> nat list \<Rightarrow> node list \<times> stream
     \<Rightarrow> (node list \<times> stream) run" where
  "segment_loop eng segment_files fade_durations overlap_duration [] st = ([], Inr st)"
| "segment_loop eng segment_files fade_durations overlap_duration (i # is) st =
     and_then (segment_step eng segment_files fade_durations overlap_duration i st)
       (segment_loop eng segment_files fade_durations overlap_duration is)"

text \<open>
  \<^verbatim>\<open>create_overlapping_mixtape\<close>, lines 370-440. It returns \<^verbatim>\<open>output_file\<close> on every
  path that does not raise.
\<close>

definition create_overlapping_mixtape ::
  "engine \<Rightarrow> path list \<Rightarrow> fade_info list \<Rightarrow> path \<Rightarrow> seconds \<Rightarrow> path run" where
  "create_overlapping_mixtape eng segment_files fade_durations output_file overlap_duration =
     (if length segment_files = 1 then
        (case fade_durations of
           [] \<Rightarrow> ([], Inl IndexError)
         | song_info # _ \<Rightarrow>
             and_then (get_audio_duration eng (segment_files ! 0))
               (\<lambda>segment_duration.
                  and_then (apply_fades eng (segment_files ! 0) output_file
                              (fadeIn song_info) (fadeOut song_info) segment_duration)
                    (\<lambda>_. ([], Inr output_file))))
      else
        and_then (segment_loop eng segment_files fade_durations overlap_duration
                    [0..<length segment_files] ([], Input 0))
          (\<lambda>(filter_complex, current_output).
             let cmd = FfmpegMix segment_files
                         (filter_complex @ [Aresample current_output 44100 Out]) Out output_file
             in and_then ([cmd], Inr ())
                  (\<lambda>_. if exit_ok eng cmd then ([], Inr output_file)
                       else concatenate_audio eng segment_files output_file)))"

section \<open>The request handler of \<^verbatim>\<open>app.py\<close>\<close>

text \<open>
  A form field read with \<^verbatim>\<open>float(request.form.get(key, default))\<close>: absent, text that
  \<^verbatim>\<open>float\<close> rejects, or a number.
\<close>

datatype field = Absent | Malformed | Number seconds

definition py_float :: "field \<Rightarrow> seconds \<Rightarrow> error + seconds" where
  "py_float v dflt =
     (case v of Absent \<Rightarrow> Inr dflt | Malformed \<Rightarrow> Inl ValueError | Number x \<Rightarrow> Inr x)"

text \<open>
  Row \<open>i\<close> of the form: the fields \<^verbatim>\<open>youtube_url_{i}\<close> (as \<^verbatim>\<open>.strip()\<close> leaves it),
  \<^verbatim>\<open>start_time_{i}\<close>, \<^verbatim>\<open>end_time_{i}\<close>, \<^verbatim>\<open>fade_in_{i}\<close> and \<^verbatim>\<open>fade_out_{i}\<close>. The form is the
  list of its rows up to the first index without a \<^verbatim>\<open>youtube_url\<close> field.
\<close>

record form_row =
  youtube_url_i :: string
  start_time_i :: field
  end_time_i :: field
  fade_in_i :: field
  fade_out_i :: field

text \<open>An entry of \<^verbatim>\<open>songs\<close>: the fade lengths, the URL and the excerpt.\<close>

record song = fade_info +
  youtubeUrl :: string
  startTime :: seconds
  endTime :: seconds

text \<open>
  What the handler needs beside the audio engine: \<^verbatim>\<open>validate_youtube_url\<close> (a regular
  expression, not modelled), \<^verbatim>\<open>download_youtube_audio\<close> (the file it returns, or
  nothing when every service failed), whether a downloaded file exists and is not
  empty, and the file names of the session directory.
\<close>

record app_env =
  valid_url :: "string \<Rightarrow> bool"
  download :: "string \<Rightarrow> path \<Rightarrow> path option"
  file_ready :: "path \<Rightarrow> bool"
  download_path :: "nat \<Rightarrow> path"
  segment_path :: "nat \<Rightarrow> path"
  final_mixtape :: path

text \<open>The messages passed to \<^verbatim>\<open>flash\<close>, and the two redirects.\<close>

datatype flash =
    AddAtLeastOneSong
  | InvalidUrl nat
  | EndNotAfterStart nat
  | ErrorCreating error
  | Created

datatype response = RedirectIndex flash | RedirectDownloadPage flash

text \<open>Lines 39-51: rows with an empty URL are skipped.\<close>

fun parse_songs :: "form_row list \<Rightarrow> error + song list" where
  "parse_songs [] = Inr []"
| "parse_songs (r # rs) =
     (if youtube_url_i r \<noteq> [] then
        (case py_float (start_time_i r) 0 of Inl e \<Rightarrow> Inl e | Inr st \<Rightarrow>
        (case py_float (end_time_i r) 30 of Inl e \<Rightarrow> Inl e | Inr et \<Rightarrow>
        (case py_float (fade_in_i r) 2 of Inl e \<Rightarrow> Inl e | Inr fi \<Rightarrow>
        (case py_float (fade_out_i r) 2 of Inl e \<Rightarrow> Inl e | Inr fo \<Rightarrow>
        (case parse_songs rs of Inl e \<Rightarrow> Inl e | Inr songs \<Rightarrow>
           Inr (\<lparr>fadeIn = fi, fadeOut = fo, youtubeUrl = youtube_url_i r,
                 startTime = st, endTime = et\<rparr> # songs))))))
      else parse_songs rs)"

text \<open>Lines 58-65: the first song that fails a check decides the message.\<close>

fun validate_songs :: "app_env \<Rightarrow> nat \<Rightarrow> song list \<Rightarrow> flash option" where
  "validate_songs env i [] = None"
| "validate_songs env i (s # ss) =
     (if \<not> valid_url env (youtubeUrl s) then Some (InvalidUrl (i + 1))
      else if endTime s \<le> startTime s then Some (EndNotAfterStart (i + 1))
      else validate_songs env (i + 1) ss)"

text \<open>\<^verbatim>\<open>extract_segment\<close>, \<^verbatim>\<open>utils.py\<close> lines 275-300.\<close>

definition extract_segment ::
  "app_env \<Rightarrow> engine \<Rightarrow> path \<Rightarrow> path \<Rightarrow> seconds \<Rightarrow> seconds \<Rightarrow> path run" where
  "extract_segment env eng input_file output_file start duration =
     (if \<not> file_ready env input_file then ([], Inl InputMissing)
      else
        let cmd = FfmpegExtract input_file start duration output_file
        in ([cmd],
            if \<not> exit_ok eng cmd then Inl ExtractionFailed
            else if \<not> output_ok eng cmd then Inl OutputFailed
            else Inr output_file))"

text \<open>
  Lines 77-104, for the songs from index \<open>i\<close> on: download, cut the excerpt, and collect
  the segment files and the fade lengths. The check of line 93 repeats the last check
  of \<^verbatim>\<open>extract_segment\<close>.
\<close>

fun process_songs ::
  "app_env \<Rightarrow> engine \<Rightarrow> nat \<Rightarrow> song list \<Rightarrow> (path list \<times> fade_info list) run" where
  "process_songs env eng i [] = ([], Inr ([], []))"
| "process_songs env eng i (s # ss) =
     (case download env (youtubeUrl s) (download_path env i) of
        None \<Rightarrow> ([], Inl AllServicesFailed)
      | Some downloaded_file \<Rightarrow>
          if \<not> file_ready env downloaded_file then ([], Inl (DownloadFailed (i + 1)))
          else
            let start = max 0 (startTime s);
                segment_duration = fsub (endTime s) start
            in and_then (extract_segment env eng downloaded_file (segment_path env i)
                           start segment_duration)
                 (\<lambda>segment_file.
                    and_then (process_songs env eng (i + 1) ss)
                      (\<lambda>(processed_files, fade_infos).
                         ([], Inr (segment_file # processed_files,
                                   \<lparr>fadeIn = fadeIn s, fadeOut = fadeOut s\<rparr> # fade_infos)))))"

text \<open>
  \<^verbatim>\<open>create_mixtape\<close>, lines 35-130: the commands given to the audio engine and the
  response. Every exception ends in the handler of lines 127-130.
\<close>

definition create_mixtape :: "app_env \<Rightarrow> engine \<Rightarrow> form_row list \<Rightarrow> command list \<times> response" where
  "create_mixtape env eng form =
     (case parse_songs form of
        Inl e \<Rightarrow> ([], RedirectIndex (ErrorCreating e))
      | Inr songs \<Rightarrow>
          if songs = [] then ([], RedirectIndex AddAtLeastOneSong)
          else
            (case validate_songs env 0 songs of
               Some msg \<Rightarrow> ([], RedirectIndex msg)
             | None \<Rightarrow>
                 (case and_then (process_songs env eng 0 songs)
                         (\<lambda>(processed_files, fade_infos).
                            create_overlapping_mixtape eng processed_files fade_infos
                              (final_mixtape env) 3)
                  of (t, Inl e) \<Rightarrow> (t, RedirectIndex (ErrorCreating e))
                   | (t, Inr _) \<Rightarrow> (t, RedirectDownloadPage Created))))"

section \<open>The filter graph in closed form\<close>

text \<open>
  What the loop of \<^verbatim>\<open>create_overlapping_mixtape\<close> has built when the probes of the
  segments answered the durations \<open>ds\<close>: the \<^verbatim>\<open>delay_time\<close> of segment \<open>i\<close> (the running
  total of lines 413-416 is the left-to-right float sum of the first \<open>i\<close> durations),
  the label of segment \<open>i\<close>, the value of \<^verbatim>\<open>current_output\<close> when iteration \<open>i\<close> starts, the
  entries iteration \<open>i\<close> appends, the probes it runs, and the whole \<^verbatim>\<open>filter_complex\<close>
  for \<open>n\<close> segments.
\<close>

definition segment_delay :: "seconds list \<Rightarrow> seconds \<Rightarrow> nat \<Rightarrow> seconds" where
  "segment_delay ds ov i = delay_time (foldl fadd 0 (take i ds)) ov i"

definition track_ref :: "seconds list \<Rightarrow> fade_info list \<Rightarrow> nat \<Rightarrow> stream" where
  "track_ref ds fades i = snd (fade_stage i (fadeIn (fades ! i)) (fadeOut (fades ! i)) (ds ! i))"

definition current_output_at :: "seconds list \<Rightarrow> fade_info list \<Rightarrow> nat \<Rightarrow> stream" where
  "current_output_at ds fades i =
     (if i = 0 then Input 0 else if i = 1 then track_ref ds fades 0 else Mixed (i - 1))"

definition segment_nodes :: "seconds list \<Rightarrow> fade_info list \<Rightarrow> seconds \<Rightarrow> nat \<Rightarrow> node list" where
  "segment_nodes ds fades ov i =
     fst (fade_stage i (fadeIn (fades ! i)) (fadeOut (fades ! i)) (ds ! i)) @
     (if i = 0 then []
      else fst (mix_stage i (track_ref ds fades i) (current_output_at ds fades i)
                  (segment_delay ds ov i)))"

definition segment_probes :: "path list \<Rightarrow> nat \<Rightarrow> command list" where
  "segment_probes segs i =
     Ffprobe (segs ! i) # (if i = 0 then [] else map Ffprobe (take i segs))"

definition filter_graph :: "seconds list \<Rightarrow> fade_info list \<Rightarrow> seconds \<Rightarrow> nat \<Rightarrow> node list" where
  "filter_graph ds fades ov n =
     concat (map (segment_nodes ds fades ov) [0..<n]) @
     [Aresample (current_output_at ds fades n) 44100 Out]"

section \<open>The engine's durations\<close>

text \<open>
  Modelled from the spec: the duration of the file an engine command writes. The engine
  (\<^verbatim>\<open>ffmpeg\<close>) is external to the repository; the spec gives its contract: fade filters
  do not alter the duration, a delay shifts a stream by its milliseconds, a binary mix
  lasts as long as the longest of its two inputs, resampling keeps the duration, and a
  concatenation lasts the sum of its inputs.
\<close>

definition probed :: "engine \<Rightarrow> path \<Rightarrow> seconds option" where
  "probed eng f = (case ffprobe eng f of ProbeSeconds d \<Rightarrow> Some d | _ \<Rightarrow> None)"

fun node_duration :: "(stream \<Rightarrow> seconds option) \<Rightarrow> node \<Rightarrow> stream \<Rightarrow> seconds option" where
  "node_duration env (Fade a fs b) = env (b := env a)"
| "node_duration env (Adelay a ms ms' b) =
     env (b := map_option (\<lambda>d. of_int ms / 1000 + d) (env a))"
| "node_duration env (Amix a b c) =
     env (c := (case (env a, env b) of
                  (Some x, Some y) \<Rightarrow> Some (max x y)
                | _ \<Rightarrow> None))"
| "node_duration env (Aresample a r b) = env (b := env a)"

definition input_durations :: "engine \<Rightarrow> path list \<Rightarrow> stream \<Rightarrow> seconds option" where
  "input_durations eng fs s =
     (case s of
        Input i \<Rightarrow> if i < length fs then probed eng (fs ! i) else None
      | _ \<Rightarrow> None)"

definition output_duration :: "engine \<Rightarrow> command \<Rightarrow> seconds option" where
  "output_duration eng cmd =
     (case cmd of
        Ffprobe f \<Rightarrow> None
      | FfmpegExtract f start d out \<Rightarrow> None
      | FfmpegFade f filters out \<Rightarrow> probed eng f
      | FfmpegMix fs graph label out \<Rightarrow> foldl node_duration (input_durations eng fs) graph label
      | FfmpegConcat fs out \<Rightarrow>
          (if list_all (\<lambda>f. probed eng f \<noteq> None) fs
           then Some (sum_list (map (\<lambda>f. the (probed eng f)) fs)) else None))"

text \<open>
  By these rules the mix of the first \<open>k\<close> segments of a build ends when the last of
  them ends: segment 0 starts at 0, segment \<open>i > 0\<close> after the delay written for it.
\<close>

fun timeline_end :: "seconds list \<Rightarrow> seconds \<Rightarrow> nat \<Rightarrow> seconds" where
  "timeline_end ds ov 0 = 0"
| "timeline_end ds ov (Suc k) =
     (if k = 0 then ds ! 0
      else max (timeline_end ds ov k)
             (of_int (py_int (fmul (segment_delay ds ov k) 1000)) / 1000 + ds ! k))"

section \<open>Reading a run, and engines for the concrete scenarios\<close>

text \<open>
  The float operations of lines 413-421 carry no rounding error for the segments
  \<open>1 .. n - 1\<close>: each \<^verbatim>\<open>delay_time\<close> is the exact \<open>max 0 (d\<^sub>0 + \<dots> + d\<^sub>i\<^sub>-\<^sub>1 - overlap * i)\<close> and
  its product with 1000 is exact.
\<close>

definition no_rounding :: "seconds list \<Rightarrow> seconds \<Rightarrow> nat \<Rightarrow> bool" where
  "no_rounding ds ov n \<longleftrightarrow>
     (\<forall>i \<in> {1..<n}.
        segment_delay ds ov i = max 0 (sum_list (take i ds) - ov * of_nat i) \<and>
        fmul (segment_delay ds ov i) 1000 = segment_delay ds ov i * 1000)"


text \<open>
  An engine that reports the durations of a table and fails for any other file, with
  the given exit codes.
\<close>

definition table_engine :: "(path \<times> seconds) list \<Rightarrow> (command \<Rightarrow> bool) \<Rightarrow> engine" where
  "table_engine tbl ok =
     \<lparr>ffprobe = (\<lambda>f. case map_of tbl f of None \<Rightarrow> ProbeExit | Some d \<Rightarrow> ProbeSeconds d),
      exit_ok = ok,
      output_ok = ok\<rparr>"

definition is_mix :: "command \<Rightarrow> bool" where
  "is_mix cmd = (case cmd of FfmpegMix fs graph label out \<Rightarrow> True | _ \<Rightarrow> False)"

definition is_concat :: "command \<Rightarrow> bool" where
  "is_concat cmd = (case cmd of FfmpegConcat fs out \<Rightarrow> True | _ \<Rightarrow> False)"

definition is_probe :: "command \<Rightarrow> bool" where
  "is_probe cmd = (case cmd of Ffprobe f \<Rightarrow> True | _ \<Rightarrow> False)"

definition is_fade :: "command \<Rightarrow> bool" where
  "is_fade cmd = (case cmd of FfmpegFade f filters out \<Rightarrow> True | _ \<Rightarrow> False)"

text \<open>The \<^verbatim>\<open>-filter_complex\<close> entries of a command; only the mix command has any.\<close>

definition filter_nodes :: "command \<Rightarrow> node list" where
  "filter_nodes cmd = (case cmd of FfmpegMix fs graph label out \<Rightarrow> graph | _ \<Rightarrow> [])"

section \<open>Rounding to a double\<close>

lemma round_half_even_of_int: "round_half_even (of_int k) = k"
  by (simp add: round_half_even_def)

lemma round_half_even_nonneg: "0 \<le> m \<Longrightarrow> 0 \<le> round_half_even m"
  by (auto simp: round_half_even_def Let_def)

lemma round_half_even_eqI:
  assumes "of_int f \<le> m" and "m < of_int f + 1"
  shows "round_half_even m =
           (if m - of_int f < 1 / 2 then f
            else if 1 / 2 < m - of_int f then f + 1
            else if even f then f else f + 1)"
proof -
  from assms have "\<lfloor>m\<rfloor> = f" by (simp add: floor_eq_iff)
  then show ?thesis by (simp add: round_half_even_def)
qed

lemma floorlog_rat_bounds:
  assumes "0 < (n :: int)"
  shows "(2 :: rat) powi (int (floorlog 2 (nat n)) - 1) \<le> of_int n"
    and "of_int n < (2 :: rat) powi int (floorlog 2 (nat n))"
proof -
  from assms have pos: "0 < nat n" by simp
  from floorlog_bounds [of "nat n" 2] pos
  have lo: "2 ^ (floorlog 2 (nat n) - 1) \<le> nat n" and hi: "nat n < 2 ^ floorlog 2 (nat n)"
    by simp_all
  have fl: "0 < floorlog 2 (nat n)"
    using pos floorlog_eq_zero_iff [of 2 "nat n"] by (cases "floorlog 2 (nat n)") auto
  then have e: "int (floorlog 2 (nat n)) - 1 = int (floorlog 2 (nat n) - 1)" by simp
  have pw: "(2 :: rat) powi (int (floorlog 2 (nat n)) - 1) = 2 ^ (floorlog 2 (nat n) - 1)"
    unfolding e by (rule power_int_of_nat)
  have "(2 :: rat) ^ (floorlog 2 (nat n) - 1) \<le> of_nat (nat n)"
    using lo by (metis of_nat_le_iff of_nat_numeral of_nat_power)
  moreover have n: "(of_nat (nat n) :: rat) = of_int n"
    using assms by simp
  ultimately show "(2 :: rat) powi (int (floorlog 2 (nat n)) - 1) \<le> of_int n"
    unfolding pw by simp
  have "(of_nat (nat n) :: rat) < 2 ^ floorlog 2 (nat n)"
    using hi by (metis of_nat_less_iff of_nat_numeral of_nat_power)
  then show "of_int n < (2 :: rat) powi int (floorlog 2 (nat n))"
    unfolding n by simp
qed

lemma power_int_two_split:
  "a + b = c \<Longrightarrow> (2 :: rat) powi a * 2 powi b = 2 powi c"
  using power_int_add [of "2 :: rat" a b] by simp

lemma power_int_two_less: "(2 :: rat) powi a < 2 powi b \<Longrightarrow> a < b"
proof (rule ccontr)
  assume less: "(2 :: rat) powi a < 2 powi b" and "\<not> a < b"
  then have "b \<le> a" by simp
  then have "(2 :: rat) powi b \<le> 2 powi a" by (rule power_int_increasing) simp
  with less show False by simp
qed

lemma binary_exponent_bounds:
  assumes "0 < a"
  shows "2 powi binary_exponent a \<le> a \<and> a < 2 powi (binary_exponent a + 1)"
proof -
  obtain p q where pq: "quotient_of a = (p, q)" by (cases "quotient_of a")
  then have q: "0 < q" and a: "a = of_int p / of_int q"
    by (rule quotient_of_denom_pos, rule quotient_of_div)
  with assms have p: "0 < p"
    by (simp add: zero_less_divide_iff)
  let ?bp = "int (floorlog 2 (nat p))" and ?bq = "int (floorlog 2 (nat q))"
  let ?e = "?bp - ?bq"
  have qr: "(0 :: rat) < of_int q" using q by simp
  have pr: "(0 :: rat) < of_int p" using p by simp
  have ap: "a * of_int q = of_int p" using qr by (simp add: a)
  have up: "a < 2 powi (?e + 1)"
  proof -
    have "of_int p < (2 :: rat) powi ?bp" by (rule floorlog_rat_bounds [OF p])
    moreover have "(2 :: rat) powi (?bq - 1) \<le> of_int q" by (rule floorlog_rat_bounds [OF q])
    ultimately have "of_int p * (2 :: rat) powi (?bq - 1) < 2 powi ?bp * of_int q"
      using pr by (intro mult_less_le_imp_less) simp_all
    then have "(a * of_int q) * (2 :: rat) powi (?bq - 1) < 2 powi ?bp * of_int q"
      by (simp only: ap)
    then have "(a * (2 :: rat) powi (?bq - 1)) * of_int q < 2 powi ?bp * of_int q"
      by (simp only: ac_simps)
    then have "a * (2 :: rat) powi (?bq - 1) < 2 powi ?bp"
      using qr by (simp only: mult_less_cancel_right_pos)
    moreover have "(2 :: rat) powi (?e + 1) * 2 powi (?bq - 1) = 2 powi ?bp"
      by (rule power_int_two_split) simp
    ultimately have "a * (2 :: rat) powi (?bq - 1) < 2 powi (?e + 1) * 2 powi (?bq - 1)"
      by simp
    then show ?thesis by simp
  qed
  have low: "2 powi (?e - 1) \<le> a"
  proof -
    have "(2 :: rat) powi (?bp - 1) \<le> of_int p" by (rule floorlog_rat_bounds [OF p])
    moreover have "of_int q < (2 :: rat) powi ?bq" by (rule floorlog_rat_bounds [OF q])
    ultimately have "(2 :: rat) powi (?bp - 1) * of_int q \<le> of_int p * 2 powi ?bq"
      using qr pr by (intro mult_mono) simp_all
    then have "(2 :: rat) powi (?bp - 1) * of_int q \<le> (a * of_int q) * 2 powi ?bq"
      by (simp only: ap)
    then have "(2 :: rat) powi (?bp - 1) * of_int q \<le> (a * 2 powi ?bq) * of_int q"
      by (simp only: ac_simps)
    then have "(2 :: rat) powi (?bp - 1) \<le> a * 2 powi ?bq"
      using qr by (simp only: mult_le_cancel_right_pos)
    moreover have "(2 :: rat) powi (?e - 1) * 2 powi ?bq = 2 powi (?bp - 1)"
      by (rule power_int_two_split) simp
    ultimately have "(2 :: rat) powi (?e - 1) * 2 powi ?bq \<le> a * 2 powi ?bq"
      by simp
    then show ?thesis by simp
  qed
  show ?thesis
  proof (cases "2 powi ?e \<le> a")
    case True
    with up pq show ?thesis by (simp add: binary_exponent_def)
  next
    case False
    with low pq show ?thesis by (simp add: binary_exponent_def)
  qed
qed

lemma binary_exponent_eqI:
  assumes "2 powi e \<le> a" and "a < 2 powi (e + 1)"
  shows "binary_exponent a = e"
proof -
  have "(0 :: rat) < 2 powi e" by simp
  with assms(1) have a: "0 < a" by linarith
  from binary_exponent_bounds [OF a]
  have b: "2 powi binary_exponent a \<le> a" "a < 2 powi (binary_exponent a + 1)" by simp_all
  from assms(1) b(2) have "(2 :: rat) powi e < 2 powi (binary_exponent a + 1)" by linarith
  then have "e < binary_exponent a + 1" by (rule power_int_two_less)
  moreover from b(1) assms(2) have "(2 :: rat) powi binary_exponent a < 2 powi (e + 1)" by linarith
  then have "binary_exponent a < e + 1" by (rule power_int_two_less)
  ultimately show ?thesis by simp
qed

lemma round_double_nonneg: "0 \<le> x \<Longrightarrow> 0 \<le> round_double x"
  by (simp add: round_double_def Let_def round_half_even_nonneg)

lemma round_double_nonpos: "x \<le> 0 \<Longrightarrow> round_double x \<le> 0"
proof (cases "x = 0")
  case True
  then show ?thesis by (simp add: round_double_def)
next
  case False
  assume "x \<le> 0"
  with False have "x < 0" by simp
  then have "sgn x = - 1" by simp
  moreover have "0 \<le> of_int (round_half_even (\<bar>x\<bar> / 2 powi q)) * (2 :: rat) powi q" for q
    by (simp add: round_half_even_nonneg)
  ultimately show ?thesis
    using False by (simp add: round_double_def Let_def mult.assoc)
qed

lemma round_double_minus: "round_double (- x) = - round_double x"
  by (simp add: round_double_def Let_def)

text \<open>
  A positive value in the binade \<open>[2 ^ (q + 52), 2 ^ (q + 53))\<close> of the normal range is
  rounded to a multiple of \<open>2 ^ q\<close>.
\<close>

lemma round_double_normal:
  assumes "2 powi (q + 52) \<le> x" and "x < 2 powi (q + 53)" and "- 1074 \<le> q"
  shows "round_double x = of_int (round_half_even (x / 2 powi q)) * 2 powi q"
proof -
  have "(0 :: rat) < 2 powi (q + 52)" by simp
  with assms(1) have x: "0 < x" by linarith
  have "binary_exponent x = q + 52"
    by (rule binary_exponent_eqI) (use assms in \<open>simp_all add: add.commute\<close>)
  with x assms(3) show ?thesis
    by (simp add: round_double_def Let_def max_def)
qed

text \<open>A value with a mantissa of at most 53 bits is a double, and rounding keeps it.\<close>

lemma round_double_exact:
  assumes "\<bar>n\<bar> < 2 ^ 53" and "- 1074 \<le> k"
  shows "round_double (of_int n * 2 powi k) = of_int n * 2 powi k"
proof -
  have pos: "round_double (of_int m * 2 powi k) = of_int m * 2 powi k"
    if m: "0 < m" "m < 2 ^ 53" for m :: int
  proof -
    define x :: rat where "x = of_int m * 2 powi k"
    define q where "q = max (binary_exponent x - 52) (- 1074)"
    have x: "0 < x" using m by (simp add: x_def)
    from binary_exponent_bounds [OF x] have lo: "2 powi binary_exponent x \<le> x" by simp
    have "(of_int m :: rat) < 2 ^ 53"
      using m(2) by (metis of_int_less_iff of_int_numeral of_int_power)
    then have "x < 2 ^ 53 * 2 powi k" by (simp add: x_def)
    also have "\<dots> = 2 powi (53 + k)"
      using power_int_two_split [of 53 k "53 + k"] by simp
    finally have "(2 :: rat) powi binary_exponent x < 2 powi (53 + k)" using lo by linarith
    then have "binary_exponent x < 53 + k" by (rule power_int_two_less)
    with assms(2) have qk: "q \<le> k" by (simp add: q_def)
    then obtain j where j: "k - q = int j"
      by (metis diff_ge_0_iff_ge nonneg_int_cases)
    have "(2 :: rat) powi q * 2 powi (int j) = 2 powi k"
      by (rule power_int_two_split) (use j in simp)
    then have split: "(2 :: rat) powi k = 2 powi q * 2 ^ j" by simp
    have "x / 2 powi q = of_int m * 2 ^ j"
      by (simp add: x_def split)
    also have "\<dots> = of_int (m * 2 ^ j)" by simp
    finally have eq: "x / 2 powi q = of_int (m * 2 ^ j)" .
    have r: "round_half_even (x / 2 powi q) = m * 2 ^ j"
      unfolding eq by (rule round_half_even_of_int)
    have "round_double x = sgn x * of_int (round_half_even (\<bar>x\<bar> / 2 powi q)) * 2 powi q"
      using x by (simp add: round_double_def Let_def q_def)
    also have "\<dots> = of_int (m * 2 ^ j) * 2 powi q"
      using x by (simp add: r)
    also have "\<dots> = x" by (simp add: x_def split)
    finally show ?thesis by (simp add: x_def)
  qed
  consider "n = 0" | "0 < n" | "n < 0" by linarith
  then show ?thesis
  proof cases
    case 1
    then show ?thesis by (simp add: round_double_def)
  next
    case 2
    with assms(1) show ?thesis by (intro pos) simp_all
  next
    case 3
    with assms(1) have "round_double (of_int (- n) * 2 powi k) = of_int (- n) * 2 powi k"
      by (intro pos) simp_all
    then show ?thesis
      using round_double_minus [of "of_int n * 2 powi k"] by simp
  qed
qed

lemma round_double_of_int: "\<bar>n\<bar> < 2 ^ 53 \<Longrightarrow> round_double (of_int n) = of_int n"
  using round_double_exact [of n 0] by simp

lemma round_double_numeral [simp]:
  "(numeral w :: int) < 2 ^ 53 \<Longrightarrow> round_double (numeral w) = numeral w"
  using round_double_of_int [of "numeral w"] by simp

lemma round_double_zero [simp]: "round_double 0 = 0"
  by (simp add: round_double_def)

lemma round_double_one [simp]: "round_double 1 = 1"
  using round_double_of_int [of 1] by simp

section \<open>Running the computations\<close>

lemma and_then_simps:
  "and_then (t, Inl e) f = (t, Inl e)"
  "and_then (t, Inr v) f = (t @ fst (f v), snd (f v))"
  by (simp_all add: and_then_def split: prod.splits)

lemma and_then_assoc:
  "and_then (and_then m f) g = and_then m (\<lambda>v. and_then (f v) g)"
  by (cases m; cases "snd m") (auto simp: and_then_def split: prod.splits sum.splits)

lemma get_audio_duration_ok:
  "ffprobe eng f = ProbeSeconds d \<Longrightarrow> get_audio_duration eng f = ([Ffprobe f], Inr d)"
  by (simp add: get_audio_duration_def)

lemma total_previous_duration_ok:
  "map (ffprobe eng) fs = map ProbeSeconds ds \<Longrightarrow>
   total_previous_duration eng fs tot = (map Ffprobe fs, Inr (foldl fadd tot ds))"
proof (induction fs arbitrary: ds tot)
  case Nil
  then show ?case by simp
next
  case (Cons f fs)
  then obtain d ds' where ds: "ds = d # ds'" "ffprobe eng f = ProbeSeconds d"
    "map (ffprobe eng) fs = map ProbeSeconds ds'"
    by (cases ds) auto
  show ?case
    using Cons.IH [OF ds(3)] ds(1,2)
    by (simp add: get_audio_duration_ok and_then_simps)
qed

lemma segment_delay_time_ok:
  assumes "map (ffprobe eng) segs = map ProbeSeconds ds"
  shows "segment_delay_time eng segs ov i =
           (map Ffprobe (take i segs), Inr (segment_delay ds ov i))"
proof -
  from assms have "map (ffprobe eng) (take i segs) = map ProbeSeconds (take i ds)"
    by (simp add: take_map [symmetric])
  then show ?thesis
    by (simp add: segment_delay_time_def total_previous_duration_ok and_then_simps
        segment_delay_def)
qed

lemma table_engine_probe:
  "ffprobe (table_engine tbl ok) f =
     (case map_of tbl f of None \<Rightarrow> ProbeExit | Some d \<Rightarrow> ProbeSeconds d)"
  by (simp add: table_engine_def)

section \<open>The fade stages\<close>

text \<open>
  C2, as the code has it. The fade-in stage is emitted exactly when the requested
  fade-in is positive, and it carries the requested length itself: nothing compares
  it with the segment's duration. This holds for the command of \<^verbatim>\<open>apply_fades\<close> and
  for the fade stage of a segment in the mix graph. A requested fade-in of 100 on a
  10-second segment is emitted with a length of 100.
\<close>

theorem fade_in_as_requested:
  "(AfadeIn d \<in> set (fade_filters fade_in fade_out (fade_out_start duration fade_out))
      \<longleftrightarrow> 0 < fade_in \<and> d = fade_in) \<and>
   fst (apply_fades eng input_file output_file fade_in fade_out duration) =
     [FfmpegFade input_file
        (fade_filters fade_in fade_out (fade_out_start duration fade_out)) output_file] \<and>
   fst (fade_stage i fade_in fade_out duration) =
     (if 0 < fade_in \<or> 0 < fade_out
      then [Fade (Input i)
              (fade_filters fade_in fade_out (fade_out_start duration fade_out)) (Faded i)]
      else []) \<and>
   fade_filters 100 2 (fade_out_start 10 2) = [AfadeIn 100, AfadeOut 8 2]"
  by (auto simp: fade_filters_def apply_fades_def fade_stage_def fade_out_start_def fsub_def
      Let_def)

text \<open>
  A requested fade-in of 100 on a 10-second segment is emitted as a fade-in of 100
  seconds, not of \<open>min (max 100 0) 10 = 10\<close>.
\<close>

theorem fade_in_clamp_counterexample:
  "AfadeIn 100 \<in> set (fade_filters 100 2 (fade_out_start 10 2)) \<and>
   AfadeIn (min (max 100 0) 10) \<notin> set (fade_filters 100 2 (fade_out_start 10 2))"
  by (simp add: fade_filters_def fade_out_start_def fsub_def)

section \<open>The single-segment path\<close>

lemma single_segment_run:
  assumes "ffprobe eng f = ProbeSeconds d"
  shows "create_overlapping_mixtape eng [f] (info # rest) out ov =
           ([Ffprobe f,
             FfmpegFade f (fade_filters (fadeIn info) (fadeOut info)
                             (fade_out_start d (fadeOut info))) out],
            if exit_ok eng (FfmpegFade f (fade_filters (fadeIn info) (fadeOut info)
                                            (fade_out_start d (fadeOut info))) out)
            then Inr out else Inl FadeFailed)"
  using assms
  by (simp add: create_overlapping_mixtape_def get_audio_duration_ok and_then_simps
      apply_fades_def Let_def)

lemma single_segment_commands:
  "c \<in> set (fst (create_overlapping_mixtape eng [f] fades out ov)) \<Longrightarrow>
   c = Ffprobe f \<or> (\<exists>filters. c = FfmpegFade f filters out)"
  by (cases fades; cases "ffprobe eng f")
    (auto simp: create_overlapping_mixtape_def get_audio_duration_def and_then_def
      apply_fades_def Let_def split: if_splits)

text \<open>
  C4. With exactly one segment the build runs a probe and one fade command on that
  segment and nothing else: no command carries a filter graph, so no delay, mix or
  resample node is issued, and no concatenation is run. When the probe answers and the
  fade lengths are there, the fade command's output lasts as long as the segment.
\<close>

theorem single_segment_only_fades:
  assumes "length segment_files = 1"
  shows "(\<forall>c \<in> set (fst (create_overlapping_mixtape eng segment_files fade_durations out ov)).
            (is_probe c \<or> is_fade c) \<and> filter_nodes c = []) \<and>
         (\<forall>d. ffprobe eng (segment_files ! 0) = ProbeSeconds d \<and> fade_durations \<noteq> [] \<longrightarrow>
            (\<exists>filters.
               fst (create_overlapping_mixtape eng segment_files fade_durations out ov) =
                 [Ffprobe (segment_files ! 0), FfmpegFade (segment_files ! 0) filters out] \<and>
               output_duration eng (FfmpegFade (segment_files ! 0) filters out) = Some d))"
proof -
  from assms obtain f where f: "segment_files = [f]"
    by (cases segment_files) auto
  have "(is_probe c \<or> is_fade c) \<and> filter_nodes c = []"
    if "c \<in> set (fst (create_overlapping_mixtape eng [f] fade_durations out ov))" for c
    using single_segment_commands [OF that]
    by (auto simp: is_probe_def is_fade_def filter_nodes_def)
  moreover have "\<exists>filters.
        fst (create_overlapping_mixtape eng [f] fade_durations out ov) =
          [Ffprobe f, FfmpegFade f filters out] \<and>
        output_duration eng (FfmpegFade f filters out) = Some d"
    if "ffprobe eng f = ProbeSeconds d" "fade_durations \<noteq> []" for d
  proof -
    from that(2) obtain info rest where "fade_durations = info # rest"
      by (cases fade_durations) auto
    with that(1) show ?thesis
      by (simp add: single_segment_run output_duration_def probed_def)
  qed
  ultimately show ?thesis
    using f by simp
qed

theorem single_segment_only_fades_witness:
  "length [''s0''] = 1 \<and>
   fst (create_overlapping_mixtape (table_engine [(''s0'', 40)] (\<lambda>c. True)) [''s0'']
          [\<lparr>fadeIn = 2, fadeOut = 5\<rparr>] ''out'' 3) =
     [Ffprobe ''s0'', FfmpegFade ''s0'' [AfadeIn 2, AfadeOut 35 5] ''out''] \<and>
   map (\<lambda>c. (is_probe c \<or> is_fade c, filter_nodes c))
     (fst (create_overlapping_mixtape (table_engine [(''s0'', 40)] (\<lambda>c. True)) [''s0'']
             [\<lparr>fadeIn = 2, fadeOut = 5\<rparr>] ''out'' 3)) = [(True, []), (True, [])] \<and>
   output_duration (table_engine [(''s0'', 40)] (\<lambda>c. True))
     (FfmpegFade ''s0'' [AfadeIn 2, AfadeOut 35 5] ''out'') = Some 40"
proof -
  let ?eng = "table_engine [(''s0'', 40)] (\<lambda>c. True)"
  have p: "ffprobe ?eng ''s0'' = ProbeSeconds 40"
    by (simp add: table_engine_probe)
  have run: "fst (create_overlapping_mixtape ?eng [''s0''] [\<lparr>fadeIn = 2, fadeOut = 5\<rparr>] ''out'' 3) =
      [Ffprobe ''s0'', FfmpegFade ''s0'' [AfadeIn 2, AfadeOut 35 5] ''out'']"
    by (simp add: single_segment_run [OF p] fade_filters_def fade_out_start_def fsub_def)
  have len: "length [''s0''] = 1" by simp
  from single_segment_only_fades [OF len, of ?eng "[\<lparr>fadeIn = 2, fadeOut = 5\<rparr>]" "''out''" 3]
    p run
  show ?thesis
    by simp
qed

section \<open>The fade-out start\<close>

text \<open>
  C5. The fade-out start is \<open>max 0 (duration - fade_out)\<close>, the subtraction being the
  float one, and every fade-out stage the code emits starts there. For a fade-out
  length and a duration that are not negative this is also \<open>max 0 (duration - d)\<close> for
  the length \<open>d\<close> clamped to the segment. A single 40-second segment with a fade-in of 2
  and a fade-out of 5 is faded out from second 35, and the output lasts 40 seconds.
\<close>

theorem fade_out_start_formula:
  "fade_out_start duration fade_out = max 0 (fsub duration fade_out) \<and>
   (AfadeOut st d \<in> set (fade_filters fade_in fade_out (fade_out_start duration fade_out))
      \<longleftrightarrow> 0 < fade_out \<and> d = fade_out \<and> st = max 0 (fsub duration d)) \<and>
   (0 \<le> fade_out \<and> 0 \<le> duration \<longrightarrow>
      fade_out_start duration fade_out =
        max 0 (fsub duration (min (max fade_out 0) duration))) \<and>
   fade_out_start 40 5 = 35 \<and>
   fst (create_overlapping_mixtape (table_engine [(''s0'', 40)] (\<lambda>c. True)) [''s0'']
          [\<lparr>fadeIn = 2, fadeOut = 5\<rparr>] ''out'' 3) =
     [Ffprobe ''s0'', FfmpegFade ''s0'' [AfadeIn 2, AfadeOut 35 5] ''out''] \<and>
   output_duration (table_engine [(''s0'', 40)] (\<lambda>c. True))
     (FfmpegFade ''s0'' [AfadeIn 2, AfadeOut 35 5] ''out'') = Some 40"
proof -
  let ?eng = "table_engine [(''s0'', 40)] (\<lambda>c. True)"
  have p: "ffprobe ?eng ''s0'' = ProbeSeconds 40"
    by (simp add: table_engine_probe)
  have "fst (create_overlapping_mixtape ?eng [''s0''] [\<lparr>fadeIn = 2, fadeOut = 5\<rparr>] ''out'' 3) =
      [Ffprobe ''s0'', FfmpegFade ''s0'' [AfadeIn 2, AfadeOut 35 5] ''out'']"
    by (simp add: single_segment_run [OF p] fade_filters_def fade_out_start_def fsub_def)
  moreover have "output_duration ?eng (FfmpegFade ''s0'' [AfadeIn 2, AfadeOut 35 5] ''out'') = Some 40"
    by (simp add: output_duration_def probed_def p)
  moreover have "AfadeOut st d \<in> set (fade_filters fade_in fade_out (fade_out_start duration fade_out))
      \<longleftrightarrow> 0 < fade_out \<and> d = fade_out \<and> st = max 0 (fsub duration d)"
    by (auto simp: fade_filters_def fade_out_start_def)
  moreover have "fade_out_start duration fade_out =
      max 0 (fsub duration (min (max fade_out 0) duration))"
    if "0 \<le> fade_out" "0 \<le> duration"
  proof (cases "fade_out \<le> duration")
    case True
    with that show ?thesis by (simp add: fade_out_start_def min_def max_def)
  next
    case False
    then have "round_double (duration - fade_out) \<le> 0"
      by (intro round_double_nonpos) simp
    with False that show ?thesis
      by (simp add: fade_out_start_def fsub_def min_def max_def)
  qed
  moreover have "fade_out_start 40 5 = 35"
    by (simp add: fade_out_start_def fsub_def)
  ultimately show ?thesis
    by (simp add: fade_out_start_def)
qed

text \<open>
  A fade-out of 5 on 40 seconds starts at 35; a fade-out of 100 on 10 seconds starts
  at 0, as the clamped length 10 would.
\<close>

theorem fade_out_start_formula_witness:
  "(0 :: rat) \<le> 5 \<and> (0 :: rat) \<le> 40 \<and>
   fade_out_start 40 5 = max 0 (fsub 40 (min (max 5 0) 40)) \<and> fade_out_start 40 5 = 35 \<and>
   (0 :: rat) \<le> 100 \<and> (0 :: rat) \<le> 10 \<and>
   fade_out_start 10 100 = max 0 (fsub 10 (min (max 100 0) 10)) \<and> fade_out_start 10 100 = 0 \<and>
   set (fade_filters 2 100 (fade_out_start 10 100)) = {AfadeIn 2, AfadeOut 0 100}"
proof -
  have z: "fade_out_start 10 100 = 0"
    using round_double_nonpos [of "10 - 100"] by (simp add: fade_out_start_def fsub_def)
  then have "set (fade_filters 2 100 (fade_out_start 10 100)) = {AfadeIn 2, AfadeOut 0 100}"
    by (simp add: fade_filters_def)
  with z fade_out_start_formula [of 40 5 35 5 2] fade_out_start_formula [of 10 100 0 100 2]
  show ?thesis
    by simp
qed

section \<open>The loop over the segments\<close>

lemma segment_loop_append:
  "segment_loop eng segs fades ov (xs @ ys) st =
     and_then (segment_loop eng segs fades ov xs st) (segment_loop eng segs fades ov ys)"
proof (induction xs arbitrary: st)
  case Nil
  show ?case by (simp add: and_then_simps)
next
  case (Cons x xs)
  have "segment_loop eng segs fades ov (xs @ ys) =
      (\<lambda>v. and_then (segment_loop eng segs fades ov xs v) (segment_loop eng segs fades ov ys))"
    by (rule ext) (rule Cons.IH)
  then show ?case by (simp add: and_then_assoc)
qed

lemma segment_step_ok:
  assumes probes: "map (ffprobe eng) segs = map ProbeSeconds ds"
    and i: "i < length segs" "i < length fades"
  shows "segment_step eng segs fades ov i (G, current_output_at ds fades i) =
           (segment_probes segs i,
            Inr (G @ segment_nodes ds fades ov i, current_output_at ds fades (Suc i)))"
proof -
  from probes have len: "length ds = length segs"
    by (metis length_map)
  from probes i(1) len have p: "ffprobe eng (segs ! i) = ProbeSeconds (ds ! i)"
    by (metis nth_map)
  obtain faded tr where fs:
    "fade_stage i (fadeIn (fades ! i)) (fadeOut (fades ! i)) (ds ! i) = (faded, tr)"
    by (cases "fade_stage i (fadeIn (fades ! i)) (fadeOut (fades ! i)) (ds ! i)")
  have tr: "track_ref ds fades i = tr"
    by (simp add: track_ref_def fs)
  have sd: "segment_delay_time eng segs ov i =
      (map Ffprobe (take i segs), Inr (segment_delay ds ov i))"
    by (rule segment_delay_time_ok [OF probes])
  show ?thesis
  proof (cases "i = 0")
    case True
    with i fs tr p show ?thesis
      by (simp add: segment_step_def get_audio_duration_ok and_then_simps
          segment_nodes_def segment_probes_def current_output_at_def)
  next
    case False
    with i fs tr p sd show ?thesis
      by (simp add: segment_step_def get_audio_duration_ok and_then_simps
          segment_nodes_def segment_probes_def current_output_at_def mix_stage_def)
  qed
qed

lemma segment_loop_ok:
  assumes probes: "map (ffprobe eng) segs = map ProbeSeconds ds"
  shows "k \<le> length segs \<Longrightarrow> k \<le> length fades \<Longrightarrow>
         segment_loop eng segs fades ov [0..<k] ([], Input 0) =
           (concat (map (segment_probes segs) [0..<k]),
            Inr (concat (map (segment_nodes ds fades ov) [0..<k]), current_output_at ds fades k))"
proof (induction k)
  case 0
  show ?case by (simp add: current_output_at_def)
next
  case (Suc k)
  then have IH: "segment_loop eng segs fades ov [0..<k] ([], Input 0) =
           (concat (map (segment_probes segs) [0..<k]),
            Inr (concat (map (segment_nodes ds fades ov) [0..<k]), current_output_at ds fades k))"
    by simp
  from Suc.prems have k: "k < length segs" "k < length fades" by simp_all
  show ?case
    by (simp add: segment_loop_append IH and_then_simps segment_step_ok [OF probes k])
qed

text \<open>What the build runs once the loop has produced a graph.\<close>

lemma mixtape_after_loop:
  assumes "length segs \<noteq> 1"
    and "segment_loop eng segs fades ov [0..<length segs] ([], Input 0) = (t, Inr (G, cur))"
  shows "create_overlapping_mixtape eng segs fades out ov =
           (t @ FfmpegMix segs (G @ [Aresample cur 44100 Out]) Out out #
              (if exit_ok eng (FfmpegMix segs (G @ [Aresample cur 44100 Out]) Out out) then []
               else [FfmpegConcat segs out]),
            if exit_ok eng (FfmpegMix segs (G @ [Aresample cur 44100 Out]) Out out) then Inr out
            else if exit_ok eng (FfmpegConcat segs out) then Inr out
            else Inl ConcatFailed)"
  using assms
  by (simp add: create_overlapping_mixtape_def and_then_simps concatenate_audio_def Let_def)

lemma mixtape_run:
  assumes "map (ffprobe eng) segs = map ProbeSeconds ds"
    and "length segs \<noteq> 1" and "length segs \<le> length fades"
  shows "fst (create_overlapping_mixtape eng segs fades out ov) =
           concat (map (segment_probes segs) [0..<length segs]) @
           FfmpegMix segs (filter_graph ds fades ov (length segs)) Out out #
           (if exit_ok eng (FfmpegMix segs (filter_graph ds fades ov (length segs)) Out out)
            then [] else [FfmpegConcat segs out])"
  using mixtape_after_loop [OF assms(2) segment_loop_ok [OF assms(1) order_refl assms(3)]]
  by (simp add: filter_graph_def)

lemma mixtape_graph:
  assumes "map (ffprobe eng) segs = map ProbeSeconds ds"
    and "length segs \<noteq> 1" and "length segs \<le> length fades"
  shows "concat (map filter_nodes (fst (create_overlapping_mixtape eng segs fades out ov))) =
           filter_graph ds fades ov (length segs)"
proof -
  have "concat (map filter_nodes (concat (map (segment_probes segs) [0..<length segs]))) = []"
    by (auto simp: segment_probes_def filter_nodes_def)
  then show ?thesis
    by (simp add: mixtape_run [OF assms] filter_nodes_def)
qed

text \<open>Whatever the engine answers, the loop itself runs nothing but probes.\<close>

lemma and_then_trace:
  assumes "\<forall>c \<in> set (fst m). P c" and "\<And>v. \<forall>c \<in> set (fst (f v)). P c"
  shows "\<forall>c \<in> set (fst (and_then m f)). P c"
proof (cases m)
  case (Pair t r)
  show ?thesis
  proof (cases r)
    case (Inl e)
    with Pair assms(1) show ?thesis by (simp add: and_then_simps)
  next
    case (Inr v)
    with Pair assms(1) assms(2) [of v] show ?thesis by (auto simp: and_then_simps)
  qed
qed

lemma get_audio_duration_trace: "\<forall>c \<in> set (fst (get_audio_duration eng f)). is_probe c"
  by (simp add: get_audio_duration_def is_probe_def)

lemma total_previous_duration_trace:
  "\<forall>c \<in> set (fst (total_previous_duration eng fs tot)). is_probe c"
proof (induction fs arbitrary: tot)
  case Nil
  show ?case by simp
next
  case (Cons f fs)
  show ?case
    unfolding total_previous_duration.simps
    by (rule and_then_trace [OF get_audio_duration_trace]) (rule Cons.IH)
qed

lemma segment_delay_time_trace:
  "\<forall>c \<in> set (fst (segment_delay_time eng segs ov i)). is_probe c"
  unfolding segment_delay_time_def
  by (rule and_then_trace [OF total_previous_duration_trace]) simp

lemma segment_step_trace:
  "\<forall>c \<in> set (fst (segment_step eng segs fades ov i st)). is_probe c"
proof (cases "length fades \<le> i")
  case True
  then show ?thesis by (simp add: segment_step_def)
next
  case False
  have mix: "\<forall>c \<in> set (fst (and_then (segment_delay_time eng segs ov i)
        (\<lambda>delay. let (mixed, current_output) = mix_stage i tr (snd st) delay
                  in ([], Inr (fst st @ faded @ mixed, current_output))))). is_probe c"
    for tr faded
    by (rule and_then_trace [OF segment_delay_time_trace]) (simp add: mix_stage_def)
  have "\<forall>c \<in> set (fst (and_then (get_audio_duration eng (segs ! i))
      (\<lambda>segment_duration.
             let (faded, track_ref) =
                   fade_stage i (fadeIn (fades ! i)) (fadeOut (fades ! i)) segment_duration
             in if i = 0 then ([], Inr (fst st @ faded, track_ref))
                else
                  and_then (segment_delay_time eng segs ov i)
                    (\<lambda>delay.
                       let (mixed, current_output) = mix_stage i track_ref (snd st) delay
                       in ([], Inr (fst st @ faded @ mixed, current_output)))))). is_probe c"
  proof (rule and_then_trace [OF get_audio_duration_trace])
    fix v
    obtain faded tr where fs:
      "fade_stage i (fadeIn (fades ! i)) (fadeOut (fades ! i)) v = (faded, tr)"
      by (cases "fade_stage i (fadeIn (fades ! i)) (fadeOut (fades ! i)) v")
    show "\<forall>c \<in> set (fst (let (faded, track_ref) =
                   fade_stage i (fadeIn (fades ! i)) (fadeOut (fades ! i)) v
             in if i = 0 then ([], Inr (fst st @ faded, track_ref))
                else
                  and_then (segment_delay_time eng segs ov i)
                    (\<lambda>delay.
                       let (mixed, current_output) = mix_stage i track_ref (snd st) delay
                       in ([], Inr (fst st @ faded @ mixed, current_output))))). is_probe c"
      using mix [of tr faded] by (simp add: fs)
  qed
  with False show ?thesis
    by (simp add: segment_step_def Let_def)
qed

lemma segment_loop_trace:
  "\<forall>c \<in> set (fst (segment_loop eng segs fades ov xs st)). is_probe c"
proof (induction xs arbitrary: st)
  case Nil
  show ?case by simp
next
  case (Cons x xs)
  show ?case
    unfolding segment_loop.simps
    by (rule and_then_trace [OF segment_step_trace]) (rule Cons.IH)
qed

section \<open>The fallback\<close>

text \<open>
  C3. When the mix command exits with a non-zero code, the build runs the concatenation
  of the segment files, in their given order, as its last command. The commands of the
  whole build then hold exactly one mix command and exactly one concatenation: the mix
  is not run again.
\<close>

theorem fallback_once:
  assumes "length segment_files \<noteq> 1"
    and "segment_loop eng segment_files fade_durations ov [0..<length segment_files]
           ([], Input 0) = (t, Inr (G, cur))"
    and "\<not> exit_ok eng (FfmpegMix segment_files (G @ [Aresample cur 44100 Out]) Out out)"
  shows "create_overlapping_mixtape eng segment_files fade_durations out ov =
           (t @ [FfmpegMix segment_files (G @ [Aresample cur 44100 Out]) Out out,
                 FfmpegConcat segment_files out],
            if exit_ok eng (FfmpegConcat segment_files out) then Inr out
            else Inl ConcatFailed) \<and>
         filter is_mix (fst (create_overlapping_mixtape eng segment_files fade_durations out ov)) =
           [FfmpegMix segment_files (G @ [Aresample cur 44100 Out]) Out out] \<and>
         filter is_concat (fst (create_overlapping_mixtape eng segment_files fade_durations out ov)) =
           [FfmpegConcat segment_files out]"
proof -
  have run: "create_overlapping_mixtape eng segment_files fade_durations out ov =
           (t @ [FfmpegMix segment_files (G @ [Aresample cur 44100 Out]) Out out,
                 FfmpegConcat segment_files out],
            if exit_ok eng (FfmpegConcat segment_files out) then Inr out
            else Inl ConcatFailed)"
    using mixtape_after_loop [OF assms(1,2), of out] assms(3) by simp
  from segment_loop_trace [of eng segment_files fade_durations ov "[0..<length segment_files]"
      "([], Input 0)"] assms(2)
  have probes: "\<forall>c \<in> set t. is_probe c" by simp
  have "filter is_mix t = []" "filter is_concat t = []"
    using probes by (auto simp: filter_empty_conv is_probe_def is_mix_def is_concat_def
        split: command.splits)
  with run show ?thesis
    by (simp add: is_mix_def is_concat_def)
qed

text \<open>
  Two segments of 30 and 25 seconds on an engine that fails every mix command: three
  probes, the mix, then the concatenation of the two files in order.
\<close>

theorem fallback_once_witness:
  "create_overlapping_mixtape
     (table_engine [(''s0'', 30), (''s1'', 25)] (\<lambda>c. \<not> is_mix c)) [''s0'', ''s1'']
     [\<lparr>fadeIn = 2, fadeOut = 2\<rparr>, \<lparr>fadeIn = 0, fadeOut = 0\<rparr>] ''out'' 3 =
     ([Ffprobe ''s0'', Ffprobe ''s1'', Ffprobe ''s0'',
       FfmpegMix [''s0'', ''s1'']
         [Fade (Input 0) [AfadeIn 2, AfadeOut 28 2] (Faded 0),
          Adelay (Input 1) 27000 27000 (Delayed 1),
          Amix (Faded 0) (Delayed 1) (Mixed 1),
          Aresample (Mixed 1) 44100 Out] Out ''out'',
       FfmpegConcat [''s0'', ''s1''] ''out''],
      Inr ''out'')"
proof -
  let ?eng = "table_engine [(''s0'', 30), (''s1'', 25)] (\<lambda>c. \<not> is_mix c)"
  let ?segs = "[''s0'', ''s1'']"
  let ?fades = "[\<lparr>fadeIn = 2, fadeOut = 2\<rparr>, \<lparr>fadeIn = 0, fadeOut = 0\<rparr>]"
  have p: "map (ffprobe ?eng) ?segs = map ProbeSeconds [30, 25]"
    by (simp add: table_engine_probe)
  have len: "length ?segs \<noteq> 1" by simp
  have loop: "segment_loop ?eng ?segs ?fades 3 [0..<length ?segs] ([], Input 0) =
      (concat (map (segment_probes ?segs) [0..<length ?segs]),
       Inr (concat (map (segment_nodes [30, 25] ?fades 3) [0..<length ?segs]),
            current_output_at [30, 25] ?fades (length ?segs)))"
    by (rule segment_loop_ok [OF p]) simp_all
  have fail: "\<not> exit_ok ?eng (FfmpegMix ?segs
      (concat (map (segment_nodes [30, 25] ?fades 3) [0..<length ?segs]) @
       [Aresample (current_output_at [30, 25] ?fades (length ?segs)) 44100 Out]) Out ''out'')"
    by (simp add: table_engine_def is_mix_def)
  have ok: "exit_ok ?eng (FfmpegConcat ?segs ''out'')"
    by (simp add: table_engine_def is_mix_def)
  have two: "[0..<length ?segs] = [0, 1]"
    by (simp add: upt_rec)
  from fallback_once [OF len loop fail] ok show ?thesis
    unfolding two
    by (simp add: segment_probes_def segment_nodes_def fade_stage_def mix_stage_def
        fade_filters_def fade_out_start_def track_ref_def current_output_at_def
        segment_delay_def delay_time_def fadd_def fsub_def fmul_def py_int_def)
qed

section \<open>The filter graph of a build\<close>

lemma in_filter_graph:
  "x \<in> set (filter_graph ds fades ov n) \<longleftrightarrow>
     (\<exists>j<n. x \<in> set (segment_nodes ds fades ov j)) \<or>
     x = Aresample (current_output_at ds fades n) 44100 Out"
  by (auto simp: filter_graph_def)

lemma Fade_in_segment_nodes:
  "Fade a fs b \<in> set (segment_nodes ds fades ov j) \<longleftrightarrow>
     a = Input j \<and> b = Faded j \<and> fs \<noteq> [] \<and>
     fs = fade_filters (fadeIn (fades ! j)) (fadeOut (fades ! j))
            (fade_out_start (ds ! j) (fadeOut (fades ! j)))"
  by (auto simp: segment_nodes_def fade_stage_def mix_stage_def Let_def)

lemma Adelay_in_segment_nodes:
  "Adelay a ms ms' b \<in> set (segment_nodes ds fades ov j) \<longleftrightarrow>
     0 < j \<and> a = track_ref ds fades j \<and> ms = py_int (fmul (segment_delay ds ov j) 1000) \<and>
     ms' = ms \<and> b = Delayed j"
  by (auto simp: segment_nodes_def fade_stage_def mix_stage_def Let_def)

lemma Amix_in_segment_nodes:
  "Amix a b c \<in> set (segment_nodes ds fades ov j) \<longleftrightarrow>
     0 < j \<and> a = current_output_at ds fades j \<and> b = Delayed j \<and> c = Mixed j"
  by (auto simp: segment_nodes_def fade_stage_def mix_stage_def Let_def)

lemma track_ref_eq:
  "track_ref ds fades i =
     (if 0 < fadeIn (fades ! i) \<or> 0 < fadeOut (fades ! i) then Faded i else Input i)"
  by (auto simp: track_ref_def fade_stage_def fade_filters_def Let_def)

lemma fade_filters_empty:
  "fade_filters fade_in fade_out s = [] \<longleftrightarrow> \<not> 0 < fade_in \<and> \<not> 0 < fade_out"
  by (simp add: fade_filters_def)

text \<open>
  C8. In the graph of a build of two or more segments, the fade entry of segment \<open>i\<close>
  has a fade-in stage exactly when its fade-in length is positive and a fade-out stage
  exactly when its fade-out length is positive. The entry exists exactly when one of
  the two is positive; otherwise the raw input \<open>[i:a]\<close> is what enters the mix: it is
  delayed and mixed for \<open>i > 0\<close>, and is the left input of the first mix for \<open>i = 0\<close>.
\<close>

theorem fade_stages_emitted:
  assumes "map (ffprobe eng) segment_files = map ProbeSeconds ds"
    and "length segment_files \<noteq> 1"
    and "length segment_files \<le> length fade_durations"
    and "i < length segment_files"
  shows "((\<exists>fs d. Fade (Input i) fs (Faded i) \<in> set (concat (map filter_nodes
              (fst (create_overlapping_mixtape eng segment_files fade_durations out ov)))) \<and>
            AfadeIn d \<in> set fs) \<longleftrightarrow> 0 < fadeIn (fade_durations ! i)) \<and>
         ((\<exists>fs st d. Fade (Input i) fs (Faded i) \<in> set (concat (map filter_nodes
              (fst (create_overlapping_mixtape eng segment_files fade_durations out ov)))) \<and>
            AfadeOut st d \<in> set fs) \<longleftrightarrow> 0 < fadeOut (fade_durations ! i)) \<and>
         ((\<exists>fs b. Fade (Input i) fs b \<in> set (concat (map filter_nodes
              (fst (create_overlapping_mixtape eng segment_files fade_durations out ov)))))
            \<longleftrightarrow> 0 < fadeIn (fade_durations ! i) \<or> 0 < fadeOut (fade_durations ! i)) \<and>
         (i = 0 \<longrightarrow>
            Amix (if 0 < fadeIn (fade_durations ! i) \<or> 0 < fadeOut (fade_durations ! i)
                  then Faded i else Input i) (Delayed 1) (Mixed 1)
            \<in> set (concat (map filter_nodes
                (fst (create_overlapping_mixtape eng segment_files fade_durations out ov))))) \<and>
         (0 < i \<longrightarrow>
            (\<exists>ms. Adelay (if 0 < fadeIn (fade_durations ! i) \<or> 0 < fadeOut (fade_durations ! i)
                          then Faded i else Input i) ms ms (Delayed i)
            \<in> set (concat (map filter_nodes
                (fst (create_overlapping_mixtape eng segment_files fade_durations out ov))))))"
proof -
  let ?G = "concat (map filter_nodes
              (fst (create_overlapping_mixtape eng segment_files fade_durations out ov)))"
  let ?n = "length segment_files"
  let ?fs = "fade_filters (fadeIn (fade_durations ! i)) (fadeOut (fade_durations ! i))
               (fade_out_start (ds ! i) (fadeOut (fade_durations ! i)))"
  have G: "?G = filter_graph ds fade_durations ov ?n"
    by (rule mixtape_graph [OF assms(1-3)])
  have fade: "Fade a fs b \<in> set ?G \<longleftrightarrow>
      (\<exists>j<?n. a = Input j \<and> b = Faded j \<and> fs \<noteq> [] \<and>
         fs = fade_filters (fadeIn (fade_durations ! j)) (fadeOut (fade_durations ! j))
                (fade_out_start (ds ! j) (fadeOut (fade_durations ! j))))" for a fs b
    by (simp add: G in_filter_graph Fade_in_segment_nodes)
  have a: "(\<exists>fs d. Fade (Input i) fs (Faded i) \<in> set ?G \<and> AfadeIn d \<in> set fs)
      \<longleftrightarrow> 0 < fadeIn (fade_durations ! i)"
    unfolding fade using assms(4) by (auto simp: fade_filters_def)
  have b: "(\<exists>fs st d. Fade (Input i) fs (Faded i) \<in> set ?G \<and> AfadeOut st d \<in> set fs)
      \<longleftrightarrow> 0 < fadeOut (fade_durations ! i)"
    unfolding fade using assms(4) by (auto simp: fade_filters_def)
  have c: "(\<exists>fs b. Fade (Input i) fs b \<in> set ?G)
      \<longleftrightarrow> 0 < fadeIn (fade_durations ! i) \<or> 0 < fadeOut (fade_durations ! i)"
    unfolding fade using assms(4) by (auto simp: fade_filters_empty)
  have d: "Amix (if 0 < fadeIn (fade_durations ! i) \<or> 0 < fadeOut (fade_durations ! i)
                then Faded i else Input i) (Delayed 1) (Mixed 1) \<in> set ?G" if "i = 0"
  proof -
    from that assms(2,4) have "1 < ?n" by linarith
    moreover have "Amix (track_ref ds fade_durations 0) (Delayed 1) (Mixed 1)
        \<in> set (segment_nodes ds fade_durations ov 1)"
      by (simp add: Amix_in_segment_nodes current_output_at_def)
    ultimately have "Amix (track_ref ds fade_durations 0) (Delayed 1) (Mixed 1) \<in> set ?G"
      unfolding G in_filter_graph by blast
    with that show ?thesis
      unfolding track_ref_eq by (auto split: if_splits)
  qed
  have e: "\<exists>ms. Adelay (if 0 < fadeIn (fade_durations ! i) \<or> 0 < fadeOut (fade_durations ! i)
                then Faded i else Input i) ms ms (Delayed i) \<in> set ?G" if "0 < i"
  proof -
    from that have "Adelay (track_ref ds fade_durations i)
        (py_int (fmul (segment_delay ds ov i) 1000))
        (py_int (fmul (segment_delay ds ov i) 1000)) (Delayed i)
        \<in> set (segment_nodes ds fade_durations ov i)"
      by (simp add: Adelay_in_segment_nodes)
    with assms(4) have "Adelay (track_ref ds fade_durations i)
        (py_int (fmul (segment_delay ds ov i) 1000))
        (py_int (fmul (segment_delay ds ov i) 1000)) (Delayed i) \<in> set ?G"
      unfolding G in_filter_graph by blast
    then show ?thesis
      unfolding track_ref_eq by blast
  qed
  from a b c d e show ?thesis by blast
qed

text \<open>
  Two segments of 30 and 25 seconds, the first with fades of 2 seconds and the second
  with none: segment 0 has both stages, segment 1 has no fade entry and its raw input
  is what is delayed.
\<close>

theorem fade_stages_emitted_witness:
  "map (ffprobe (table_engine [(''s0'', 30), (''s1'', 25)] (\<lambda>c. True))) [''s0'', ''s1''] =
     map ProbeSeconds [30, 25] \<and>
   length [''s0'', ''s1''] \<noteq> 1 \<and>
   \<not> (\<exists>fs b. Fade (Input 1) fs b \<in> set (concat (map filter_nodes
        (fst (create_overlapping_mixtape (table_engine [(''s0'', 30), (''s1'', 25)] (\<lambda>c. True))
           [''s0'', ''s1''] [\<lparr>fadeIn = 2, fadeOut = 2\<rparr>, \<lparr>fadeIn = 0, fadeOut = 0\<rparr>]
           ''out'' 3))))) \<and>
   (\<exists>ms. Adelay (Input 1) ms ms (Delayed 1) \<in> set (concat (map filter_nodes
        (fst (create_overlapping_mixtape (table_engine [(''s0'', 30), (''s1'', 25)] (\<lambda>c. True))
           [''s0'', ''s1''] [\<lparr>fadeIn = 2, fadeOut = 2\<rparr>, \<lparr>fadeIn = 0, fadeOut = 0\<rparr>]
           ''out'' 3))))) \<and>
   (\<exists>fs d. Fade (Input 0) fs (Faded 0) \<in> set (concat (map filter_nodes
        (fst (create_overlapping_mixtape (table_engine [(''s0'', 30), (''s1'', 25)] (\<lambda>c. True))
           [''s0'', ''s1''] [\<lparr>fadeIn = 2, fadeOut = 2\<rparr>, \<lparr>fadeIn = 0, fadeOut = 0\<rparr>]
           ''out'' 3)))) \<and> AfadeIn d \<in> set fs) \<and>
   Amix (Faded 0) (Delayed 1) (Mixed 1) \<in> set (concat (map filter_nodes
        (fst (create_overlapping_mixtape (table_engine [(''s0'', 30), (''s1'', 25)] (\<lambda>c. True))
           [''s0'', ''s1''] [\<lparr>fadeIn = 2, fadeOut = 2\<rparr>, \<lparr>fadeIn = 0, fadeOut = 0\<rparr>]
           ''out'' 3))))"
proof -
  let ?eng = "table_engine [(''s0'', 30), (''s1'', 25)] (\<lambda>c. True)"
  let ?segs = "[''s0'', ''s1'']"
  let ?fades = "[\<lparr>fadeIn = 2, fadeOut = 2\<rparr>, \<lparr>fadeIn = 0, fadeOut = 0\<rparr>]"
  have p: "map (ffprobe ?eng) ?segs = map ProbeSeconds [30, 25]"
    by (simp add: table_engine_probe)
  have len: "length ?segs \<noteq> 1" and le: "length ?segs \<le> length ?fades"
    and i0: "0 < length ?segs" and i1: "1 < length ?segs"
    by simp_all
  from fade_stages_emitted [OF p len le i1, of "''out''" 3]
    fade_stages_emitted [OF p len le i0, of "''out''" 3] p
  show ?thesis
    by simp
qed

section \<open>The delays of a build\<close>

lemma Adelay_in_graph:
  assumes "i < n"
  shows "Adelay a ms ms' (Delayed i) \<in> set (filter_graph ds fades ov n) \<longleftrightarrow>
           0 < i \<and> a = track_ref ds fades i \<and>
           ms = py_int (fmul (segment_delay ds ov i) 1000) \<and> ms' = ms"
  unfolding in_filter_graph Adelay_in_segment_nodes using assms by auto

lemma Adelay_not_first:
  assumes "Adelay a ms ms' b \<in> set (filter_graph ds fades ov n)"
  shows "b \<noteq> Delayed 0 \<and> a \<noteq> Input 0 \<and> a \<noteq> Faded 0"
  using assms unfolding in_filter_graph Adelay_in_segment_nodes
  by (auto simp: track_ref_eq split: if_splits)


lemma segment_delay_nonneg: "0 \<le> segment_delay ds ov i"
  by (simp add: segment_delay_def delay_time_def)

lemma no_roundingD:
  assumes "no_rounding ds ov n" and "0 < i" and "i < n"
  shows "segment_delay ds ov i = max 0 (sum_list (take i ds) - ov * of_nat i)"
    and "fmul (segment_delay ds ov i) 1000 = segment_delay ds ov i * 1000"
proof -
  from assms(2,3) have "i \<in> {1..<n}" by simp
  with assms(1) show "segment_delay ds ov i = max 0 (sum_list (take i ds) - ov * of_nat i)"
    and "fmul (segment_delay ds ov i) 1000 = segment_delay ds ov i * 1000"
    unfolding no_rounding_def by blast+
qed

lemma py_int_nonneg: "0 \<le> x \<Longrightarrow> py_int x = \<lfloor>x\<rfloor>"
  by (simp add: py_int_def)

lemma no_rounding_example: "no_rounding [30, 25, 20] 3 3"
  unfolding no_rounding_def
proof
  fix i :: nat
  assume "i \<in> {1..<3}"
  then have "i = 1 \<or> i = 2" by auto
  then show "segment_delay [30, 25, 20] 3 i = max 0 (sum_list (take i [30, 25, 20]) - 3 * of_nat i) \<and>
      fmul (segment_delay [30, 25, 20] 3 i) 1000 = segment_delay [30, 25, 20] 3 i * 1000"
    by (auto simp: segment_delay_def delay_time_def fadd_def fsub_def fmul_def)
qed



section \<open>Float operations at concrete values\<close>

lemma round_double_inst:
  assumes "2 powi (q + 52) \<le> x" and "x < 2 powi (q + 53)" and "- 1074 \<le> q"
    and "of_int f \<le> x / 2 powi q" and "x / 2 powi q < of_int f + 1"
    and "(if x / 2 powi q - of_int f < 1 / 2 then f
          else if 1 / 2 < x / 2 powi q - of_int f then f + 1
          else if even f then f else f + 1) = n"
  shows "round_double x = of_int n * 2 powi q"
  using round_double_normal [OF assms(1-3)] round_half_even_eqI [OF assms(4,5)] assms(6)
  by simp

lemma fadd_zero_left: "fadd 0 x = round_double x"
  by (simp add: fadd_def)

lemma fsub_zero_right: "fsub x 0 = round_double x"
  by (simp add: fsub_def)

lemma fmul_zero_left: "fmul 0 x = 0"
  by (simp add: fmul_def)

lemma fmul_three: "fmul 3 1 = 3" "fmul 3 2 = 6"
  by (simp_all add: fmul_def)

text \<open>The double nearest to 0.29, and its product with 1000.\<close>

lemma double_029: "round_double (5224175567749775 / 18014398509481984) =
    5224175567749775 / 18014398509481984"
  using round_double_exact [of 5224175567749775 "- 54"] by simp

lemma fmul_029: "fmul (5224175567749775 / 18014398509481984) 1000 = 290"
  unfolding fmul_def
  using round_double_inst [of "- 44" "5224175567749775 / 18014398509481984 * 1000"
      5101733952880639 5101733952880640]
  by simp

text \<open>The double nearest to 0.0005, and its product with 1000.\<close>

lemma double_00005: "round_double (1152921504606847 / 2305843009213693952) =
    1152921504606847 / 2305843009213693952"
  using round_double_exact [of 1152921504606847 "- 61"] by simp

lemma fmul_00005: "fmul (1152921504606847 / 2305843009213693952) 1000 = 1 / 2"
  unfolding fmul_def
  using round_double_inst [of "- 53" "1152921504606847 / 2305843009213693952 * 1000"
      4503599627370496 4503599627370496]
  by simp

text \<open>The double nearest to 31.696, and the sums and products built on it.\<close>

lemma double_31696: "round_double (8921630861820953 / 281474976710656) =
    8921630861820953 / 281474976710656"
  using round_double_exact [of 8921630861820953 "- 48"] by simp

lemma fsub_31696: "fsub (8921630861820953 / 281474976710656) 3 =
    8077205931688985 / 281474976710656"
  unfolding fsub_def
  using round_double_exact [of 8077205931688985 "- 48"] by simp

lemma fadd_31696: "fadd (8921630861820953 / 281474976710656) 3 =
    1220756973994115 / 35184372088832"
  unfolding fadd_def
  using round_double_inst [of "- 47" "8921630861820953 / 281474976710656 + 3"
      4883027895976460 4883027895976460]
  by simp

lemma fsub_34696: "fsub (1220756973994115 / 35184372088832) 6 =
    1009650741461123 / 35184372088832"
  unfolding fsub_def
  using round_double_exact [of 1009650741461123 "- 45"] by simp

lemma fmul_28696: "fmul (8077205931688985 / 281474976710656) 1000 = 28696"
  unfolding fmul_def
  using round_double_inst [of "- 38" "8077205931688985 / 281474976710656 * 1000"
      7887896417665024 7887896417665024]
  by simp

lemma fmul_28695: "fmul (1009650741461123 / 35184372088832) 1000 =
    7887896417665023 / 274877906944"
  unfolding fmul_def
  using round_double_inst [of "- 38" "1009650741461123 / 35184372088832 * 1000"
      7887896417665023 7887896417665023]
  by simp

lemma py_int_28695: "py_int (7887896417665023 / 274877906944) = 28695"
  by (simp add: py_int_def floor_eq_iff)

lemma py_int_half: "py_int (1 / 2) = 0"
  by (simp add: py_int_def floor_eq_iff)

section \<open>The delay in milliseconds\<close>

lemma floor_less_iff_not_int:
  fixes x :: rat
  shows "of_int \<lfloor>x\<rfloor> < x \<longleftrightarrow> x \<notin> \<int>"
proof
  assume "of_int \<lfloor>x\<rfloor> < x"
  then show "x \<notin> \<int>" by (auto elim!: Ints_cases)
next
  assume "x \<notin> \<int>"
  then have "of_int \<lfloor>x\<rfloor> \<noteq> x" by (metis Ints_of_int)
  then show "of_int \<lfloor>x\<rfloor> < x" by (simp add: order.strict_iff_order)
qed

lemma fmul_nonneg: "0 \<le> x \<Longrightarrow> 0 \<le> fmul x 1000"
  unfolding fmul_def by (rule round_double_nonneg) simp

lemma double_2048: "round_double (1 / 2048) = 1 / 2048"
  using round_double_exact [of 1 "- 11"] by simp

lemma fmul_2048: "fmul (1 / 2048) 1000 = 125 / 256"
  unfolding fmul_def
  using round_double_exact [of 125 "- 8"] by simp

text \<open>
  C10. In a build of two or more segments, the delay written into the graph for segment
  \<open>i \<ge> 1\<close> is, for both channels, the \<^verbatim>\<open>int\<close> of the float product \<open>p\<close> of the
  \<^verbatim>\<open>delay_time\<close> with 1000. The offset and \<open>p\<close> are never negative, so the delay is the
  floor of \<open>p\<close>: at most \<open>p\<close>, less than one above it, and strictly below it exactly when
  \<open>p\<close> is not an integer. When the product is exact the delay is at most the offset and
  less than a millisecond short of it.
\<close>

theorem delay_truncates_product:
  assumes "map (ffprobe eng) segment_files = map ProbeSeconds ds"
    and "2 \<le> length segment_files"
    and "length segment_files \<le> length fade_durations"
    and "0 < i" and "i < length segment_files"
  shows "\<exists>off. snd (segment_delay_time eng segment_files ov i) = Inr off \<and> 0 \<le> off \<and>
           (\<exists>a. Adelay a (py_int (fmul off 1000)) (py_int (fmul off 1000)) (Delayed i)
              \<in> set (concat (map filter_nodes
                   (fst (create_overlapping_mixtape eng segment_files fade_durations out ov))))) \<and>
           (\<forall>a ms ms'. Adelay a ms ms' (Delayed i) \<in> set (concat (map filter_nodes
                   (fst (create_overlapping_mixtape eng segment_files fade_durations out ov))))
              \<longrightarrow> ms = py_int (fmul off 1000) \<and> ms' = py_int (fmul off 1000)) \<and>
           py_int (fmul off 1000) = \<lfloor>fmul off 1000\<rfloor> \<and>
           of_int (py_int (fmul off 1000)) \<le> fmul off 1000 \<and>
           fmul off 1000 < of_int (py_int (fmul off 1000)) + 1 \<and>
           (of_int (py_int (fmul off 1000)) < fmul off 1000 \<longleftrightarrow> fmul off 1000 \<notin> \<int>) \<and>
           (fmul off 1000 = off * 1000 \<longrightarrow>
              of_int (py_int (fmul off 1000)) / 1000 \<le> off \<and>
              off < of_int (py_int (fmul off 1000)) / 1000 + 1 / 1000)"
proof -
  let ?G = "concat (map filter_nodes
              (fst (create_overlapping_mixtape eng segment_files fade_durations out ov)))"
  let ?off = "segment_delay ds ov i"
  let ?p = "fmul ?off 1000"
  from assms(2) have len: "length segment_files \<noteq> 1" by simp
  have G: "?G = filter_graph ds fade_durations ov (length segment_files)"
    by (rule mixtape_graph [OF assms(1) len assms(3)])
  have run: "snd (segment_delay_time eng segment_files ov i) = Inr ?off"
    by (simp add: segment_delay_time_ok [OF assms(1)])
  have off: "0 \<le> ?off" by (rule segment_delay_nonneg)
  then have p: "0 \<le> ?p" by (rule fmul_nonneg)
  have delay: "Adelay a ms ms' (Delayed i) \<in> set ?G \<longleftrightarrow>
      a = track_ref ds fade_durations i \<and> ms = py_int ?p \<and> ms' = ms" for a ms ms'
    unfolding G Adelay_in_graph [OF assms(5)] using assms(4) by simp
  have ex: "\<exists>a. Adelay a (py_int ?p) (py_int ?p) (Delayed i) \<in> set ?G"
    unfolding delay by simp
  have only: "\<forall>a ms ms'. Adelay a ms ms' (Delayed i) \<in> set ?G
      \<longrightarrow> ms = py_int ?p \<and> ms' = py_int ?p"
    unfolding delay by simp
  have fl: "py_int ?p = \<lfloor>?p\<rfloor>" by (rule py_int_nonneg [OF p])
  have b1: "of_int (py_int ?p) \<le> ?p" and b2: "?p < of_int (py_int ?p) + 1"
    unfolding fl by linarith+
  have strict: "of_int (py_int ?p) < ?p \<longleftrightarrow> ?p \<notin> \<int>"
    unfolding fl by (rule floor_less_iff_not_int)
  have exact: "of_int (py_int ?p) / 1000 \<le> ?off \<and> ?off < of_int (py_int ?p) / 1000 + 1 / 1000"
    if "?p = ?off * 1000"
    using b1 b2 unfolding that by (simp add: field_simps)
  from run off ex only fl b1 b2 strict exact show ?thesis by blast
qed

text \<open>
  A first segment of 1/2048 s and no overlap: the offset of the second segment is
  1/2048 s, its product with 1000 is the exact 125/256, and the delay written is 0 ms.
\<close>

theorem delay_truncates_product_witness:
  "map (ffprobe (table_engine [(''s0'', 1 / 2048), (''s1'', 1)] (\<lambda>c. True))) [''s0'', ''s1'']
     = map ProbeSeconds [1 / 2048, 1] \<and>
   snd (segment_delay_time (table_engine [(''s0'', 1 / 2048), (''s1'', 1)] (\<lambda>c. True))
          [''s0'', ''s1''] 0 1) = Inr (1 / 2048) \<and>
   fmul (1 / 2048) 1000 = 125 / 256 \<and>
   (\<exists>a. Adelay a 0 0 (Delayed 1) \<in> set (concat (map filter_nodes
      (fst (create_overlapping_mixtape
         (table_engine [(''s0'', 1 / 2048), (''s1'', 1)] (\<lambda>c. True))
         [''s0'', ''s1'']
         [\<lparr>fadeIn = 0, fadeOut = 0\<rparr>, \<lparr>fadeIn = 0, fadeOut = 0\<rparr>] ''out'' 0)))))"
proof -
  let ?eng = "table_engine [(''s0'', 1 / 2048), (''s1'', 1)] (\<lambda>c. True)"
  let ?segs = "[''s0'', ''s1'']"
  let ?fades = "[\<lparr>fadeIn = 0, fadeOut = 0\<rparr>, \<lparr>fadeIn = 0, fadeOut = 0\<rparr>]"
  let ?G = "concat (map filter_nodes (fst (create_overlapping_mixtape ?eng ?segs ?fades ''out'' 0)))"
  have p: "map (ffprobe ?eng) ?segs = map ProbeSeconds [1 / 2048, 1]"
    by (simp add: table_engine_probe)
  have n: "2 \<le> length ?segs" and le: "length ?segs \<le> length ?fades"
    and i: "0 < (1 :: nat)" and i1: "1 < length ?segs"
    by simp_all
  have run: "snd (segment_delay_time ?eng ?segs 0 1) = Inr (1 / 2048)"
    by (simp add: segment_delay_time_ok [OF p] segment_delay_def delay_time_def
        fadd_zero_left fsub_zero_right fmul_zero_left double_2048)
  from delay_truncates_product [OF p n le i i1, where out = "''out''" and ov = 0]
  obtain off where off: "snd (segment_delay_time ?eng ?segs 0 1) = Inr off"
    and ex: "\<exists>a. Adelay a (py_int (fmul off 1000)) (py_int (fmul off 1000)) (Delayed 1) \<in> set ?G"
    by blast
  from off run have o: "off = 1 / 2048" by simp
  have ms: "py_int (fmul off 1000) = 0"
    unfolding o fmul_2048 by (simp add: py_int_def floor_eq_iff)
  from ex have "\<exists>a. Adelay a 0 0 (Delayed 1) \<in> set ?G"
    unfolding ms .
  with p run fmul_2048 show ?thesis by (intro conjI)
qed

text \<open>
  A first segment of 0.29 s (the double nearest to it) and no overlap: the offset of the
  second segment is that double, below 0.29, its exact product with 1000 lies between
  289 and 290, and the delay written is 290 ms, above the offset.
\<close>

theorem delay_exceeds_offset_counterexample:
  "snd (segment_delay_time
          (table_engine [(''s0'', 5224175567749775 / 18014398509481984), (''s1'', 1)] (\<lambda>c. True))
          [''s0'', ''s1''] 0 1) = Inr (5224175567749775 / 18014398509481984) \<and>
   Adelay (Input 1) 290 290 (Delayed 1) \<in> set (concat (map filter_nodes
      (fst (create_overlapping_mixtape
         (table_engine [(''s0'', 5224175567749775 / 18014398509481984), (''s1'', 1)] (\<lambda>c. True))
         [''s0'', ''s1'']
         [\<lparr>fadeIn = 0, fadeOut = 0\<rparr>, \<lparr>fadeIn = 0, fadeOut = 0\<rparr>] ''out'' 0)))) \<and>
   289 < (5224175567749775 / 18014398509481984 :: rat) * 1000 \<and>
   (5224175567749775 / 18014398509481984 :: rat) * 1000 < 290"
proof -
  let ?ds = "[5224175567749775 / 18014398509481984, 1 :: rat]"
  let ?eng = "table_engine [(''s0'', 5224175567749775 / 18014398509481984), (''s1'', 1)] (\<lambda>c. True)"
  let ?segs = "[''s0'', ''s1'']"
  let ?fades = "[\<lparr>fadeIn = 0, fadeOut = 0\<rparr>, \<lparr>fadeIn = 0, fadeOut = 0\<rparr>]"
  let ?G = "concat (map filter_nodes (fst (create_overlapping_mixtape ?eng ?segs ?fades ''out'' 0)))"
  have p: "map (ffprobe ?eng) ?segs = map ProbeSeconds ?ds"
    by (simp add: table_engine_probe)
  have len: "length ?segs \<noteq> 1" and le: "length ?segs \<le> length ?fades"
    and i1: "1 < length ?segs"
    by simp_all
  have d: "segment_delay ?ds 0 1 = 5224175567749775 / 18014398509481984"
    by (simp add: segment_delay_def delay_time_def
        fadd_zero_left fsub_zero_right fmul_zero_left double_029)
  have run: "snd (segment_delay_time ?eng ?segs 0 1) = Inr (5224175567749775 / 18014398509481984)"
    unfolding segment_delay_time_ok [OF p] d by simp
  have t: "track_ref ?ds ?fades 1 = Input 1"
    by (simp add: track_ref_def fade_stage_def fade_filters_def)
  have ms: "py_int (fmul (segment_delay ?ds 0 1) 1000) = 290"
    unfolding d fmul_029 by (simp add: py_int_def)
  have "Adelay (Input 1) 290 290 (Delayed 1) \<in> set ?G"
    unfolding mixtape_graph [OF p len le] Adelay_in_graph [OF i1] t ms by simp
  with run show ?thesis by simp
qed

section \<open>Inputs without rounding error\<close>

text \<open>
  Durations and an overlap that are whole multiples of \<open>2\<^sup>q\<close> (whole seconds for
  \<open>q = 0\<close>), small enough for every intermediate value to fit the 53 bits of a double,
  are added, subtracted and multiplied without rounding error.
\<close>

lemma sum_list_dyadic:
  "sum_list (map (\<lambda>z. rat_of_int z * c) zs) = of_int (sum_list zs) * c"
  by (induction zs) (simp_all add: algebra_simps)

lemma sum_list_take_bounds:
  fixes zs :: "int list"
  assumes "\<forall>z \<in> set zs. 0 \<le> z"
  shows "0 \<le> sum_list (take i zs)" and "sum_list (take i zs) \<le> sum_list zs"
proof -
  have "sum_list zs = sum_list (take i zs) + sum_list (drop i zs)"
    by (metis append_take_drop_id sum_list.append)
  moreover have "0 \<le> sum_list (drop i zs)"
    using assms by (intro sum_list_nonneg) (auto dest: in_set_dropD)
  moreover show "0 \<le> sum_list (take i zs)"
    using assms by (intro sum_list_nonneg) (auto dest: in_set_takeD)
  ultimately show "sum_list (take i zs) \<le> sum_list zs" by simp
qed

lemma max_zero_scale:
  fixes c :: rat
  assumes "0 < c"
  shows "max 0 (of_int k * c) = of_int (max 0 k) * c"
proof (cases "0 \<le> k")
  case True
  with assms have "0 \<le> of_int k * c" by simp
  with True show ?thesis by (simp add: max_absorb2)
next
  case False
  then have "k < 0" by simp
  then have "(of_int k :: rat) < 0" by simp
  from mult_neg_pos [OF this assms] have "of_int k * c \<le> 0" by simp
  with \<open>k < 0\<close> show ?thesis by (simp add: max_absorb1)
qed

lemma foldl_fadd_dyadic:
  assumes "- 1074 \<le> q" and "\<forall>z \<in> set zs. 0 \<le> z" and "0 \<le> a"
    and "a + sum_list zs < 2 ^ 53"
  shows "foldl fadd (of_int a * 2 powi q) (map (\<lambda>z. of_int z * 2 powi q) zs) =
           of_int (a + sum_list zs) * 2 powi q"
  using assms(2-4)
proof (induction zs arbitrary: a)
  case Nil
  then show ?case by simp
next
  case (Cons z zs)
  from Cons.prems have z: "0 \<le> z" and zs: "\<forall>z \<in> set zs. 0 \<le> z" by simp_all
  from zs have "0 \<le> sum_list zs" by (intro sum_list_nonneg) simp
  with Cons.prems z have b: "\<bar>a + z\<bar> < 2 ^ 53" by simp
  have "fadd (of_int a * 2 powi q) (of_int z * 2 powi q) = round_double (of_int (a + z) * 2 powi q)"
    by (simp add: fadd_def algebra_simps)
  also have "\<dots> = of_int (a + z) * 2 powi q"
    by (rule round_double_exact [OF b assms(1)])
  finally have step: "fadd (of_int a * 2 powi q) (of_int z * 2 powi q) = of_int (a + z) * 2 powi q" .
  from Cons.prems z have "0 \<le> a + z" and "(a + z) + sum_list zs < 2 ^ 53" by simp_all
  from Cons.IH [OF zs this] show ?case
    by (simp add: step add.assoc)
qed

lemma no_rounding_dyadic:
  assumes "- 1074 \<le> q" and "ds = map (\<lambda>z. of_int z * 2 powi q) zs"
    and "\<forall>z \<in> set zs. 0 \<le> z" and "ov = of_int v * 2 powi q" and "0 \<le> v"
    and "(sum_list zs + v * int n) * 1000 < 2 ^ 53"
  shows "no_rounding ds ov n"
  unfolding no_rounding_def
proof
  fix i assume "i \<in> {1..<n}"
  then have i: "0 < i" "i < n" by simp_all
  let ?S = "sum_list (take i zs)"
  let ?c = "2 powi q :: rat"
  have c: "0 < ?c" by (simp add: zero_less_power_int)
  from sum_list_take_bounds [OF assms(3)] have S0: "0 \<le> ?S" and S1: "?S \<le> sum_list zs" .
  from assms(3) have Z0: "0 \<le> sum_list zs" by (intro sum_list_nonneg) simp
  from i assms(5) have vi: "0 \<le> v * int i" and vin: "v * int i \<le> v * int n"
    by (simp_all add: mult_left_mono)
  from assms(5) have vn: "0 \<le> v * int n" by simp
  from assms(6) have bound: "sum_list zs + v * int n < 2 ^ 53" by simp
  have take: "take i ds = map (\<lambda>z. of_int z * ?c) (take i zs)"
    unfolding assms(2) by (simp add: take_map)
  have exact_sum: "sum_list (take i ds) = of_int ?S * ?c"
    unfolding take by (rule sum_list_dyadic)
  from S1 vn bound have small: "0 + ?S < 2 ^ 53" by simp
  from assms(3) have nn: "\<forall>z \<in> set (take i zs). 0 \<le> z"
    by (auto dest: in_set_takeD)
  from foldl_fadd_dyadic [OF assms(1) nn order_refl small]
  have tot: "foldl fadd 0 (take i ds) = of_int ?S * ?c"
    unfolding take by simp
  from vi vin Z0 bound have b1: "\<bar>v * int i\<bar> < 2 ^ 53" by simp
  have "fmul ov (of_nat i) = round_double (of_int (v * int i) * ?c)"
    unfolding fmul_def assms(4) by (simp add: algebra_simps)
  also have "\<dots> = of_int (v * int i) * ?c"
    by (rule round_double_exact [OF b1 assms(1)])
  finally have prod: "fmul ov (of_nat i) = of_int (v * int i) * ?c" .
  from S0 S1 vi vin Z0 vn bound have b2: "\<bar>?S - v * int i\<bar> < 2 ^ 53" by simp
  have "fsub (of_int ?S * ?c) (of_int (v * int i) * ?c) = round_double (of_int (?S - v * int i) * ?c)"
    unfolding fsub_def by (simp add: algebra_simps)
  also have "\<dots> = of_int (?S - v * int i) * ?c"
    by (rule round_double_exact [OF b2 assms(1)])
  finally have diff: "fsub (of_int ?S * ?c) (of_int (v * int i) * ?c) = of_int (?S - v * int i) * ?c" .
  have mx: "max 0 (of_int (?S - v * int i) * ?c) = of_int (max 0 (?S - v * int i)) * ?c"
    by (rule max_zero_scale [OF c])
  have d: "segment_delay ds ov i = of_int (max 0 (?S - v * int i)) * ?c"
    unfolding segment_delay_def delay_time_def tot prod diff mx ..
  have e: "max 0 (sum_list (take i ds) - ov * of_nat i) = of_int (max 0 (?S - v * int i)) * ?c"
    unfolding exact_sum assms(4) mx [symmetric] by (simp add: algebra_simps)
  have m0: "0 \<le> max 0 (?S - v * int i)" by simp
  from S0 S1 vi vn have m1: "max 0 (?S - v * int i) \<le> sum_list zs + v * int n"
    by linarith
  from m0 have "\<bar>max 0 (?S - v * int i) * 1000\<bar> = max 0 (?S - v * int i) * 1000"
    by (intro abs_of_nonneg) simp
  also from m1 have "\<dots> \<le> (sum_list zs + v * int n) * 1000"
    by (intro mult_right_mono) simp_all
  also note assms(6)
  finally have b3: "\<bar>max 0 (?S - v * int i) * 1000\<bar> < 2 ^ 53" .
  have "fmul (of_int (max 0 (?S - v * int i)) * ?c) 1000 =
      round_double (of_int (max 0 (?S - v * int i) * 1000) * ?c)"
    unfolding fmul_def by (simp add: algebra_simps)
  also have "\<dots> = of_int (max 0 (?S - v * int i) * 1000) * ?c"
    by (rule round_double_exact [OF b3 assms(1)])
  finally have ms: "fmul (of_int (max 0 (?S - v * int i)) * ?c) 1000 =
      of_int (max 0 (?S - v * int i)) * ?c * 1000"
    by (simp add: algebra_simps)
  show "segment_delay ds ov i = max 0 (sum_list (take i ds) - ov * of_nat i) \<and>
      fmul (segment_delay ds ov i) 1000 = segment_delay ds ov i * 1000"
    unfolding e d ms by simp
qed

section \<open>The order of the delays\<close>

lemma exact_delay_Suc:
  fixes ds :: "rat list"
  assumes "k < length ds" and "ov \<le> ds ! k"
  shows "max 0 (sum_list (take k ds) - ov * of_nat k)
       \<le> max 0 (sum_list (take (Suc k) ds) - ov * of_nat (Suc k))"
proof -
  from assms(1) have "sum_list (take (Suc k) ds) = sum_list (take k ds) + ds ! k"
    by (simp add: take_Suc_conv_app_nth)
  with assms(2) show ?thesis
    by (simp add: algebra_simps)
qed

lemma exact_delay_mono:
  fixes ds :: "rat list"
  assumes "i \<le> j" and "j < length ds" and "\<forall>d \<in> set ds. ov \<le> d"
  shows "max 0 (sum_list (take i ds) - ov * of_nat i)
       \<le> max 0 (sum_list (take j ds) - ov * of_nat j)"
  using assms(1,2)
proof (induction j rule: dec_induct)
  case base
  show ?case by simp
next
  case (step n)
  from step.prems have n: "n < length ds" by simp
  with assms(3) have "ov \<le> ds ! n" by simp
  from exact_delay_Suc [OF n this] step.IH n show ?case by simp
qed

text \<open>
  C6. In a build of two or more segments whose durations are all at least the overlap,
  and whose float operations carry no rounding error, segment 0 is not delayed, the
  offsets of the later segments are non-negative and never decrease along the
  sequence, and neither do the delays written into the graph. (The overlap need not be
  assumed non-negative for this.)
\<close>

theorem delays_monotone_without_rounding:
  assumes "map (ffprobe eng) segment_files = map ProbeSeconds ds"
    and "2 \<le> length segment_files"
    and "length segment_files \<le> length fade_durations"
    and "\<forall>d \<in> set ds. ov \<le> d"
    and "no_rounding ds ov (length segment_files)"
    and "0 < i" and "i \<le> j" and "j < length segment_files"
  shows "\<exists>a b. snd (segment_delay_time eng segment_files ov i) = Inr a \<and>
           snd (segment_delay_time eng segment_files ov j) = Inr b \<and>
           0 \<le> a \<and> a \<le> b \<and>
           (\<forall>r ms ms'. Adelay r ms ms' (Delayed 0) \<notin> set (concat (map filter_nodes
               (fst (create_overlapping_mixtape eng segment_files fade_durations out ov))))) \<and>
           (\<exists>r. Adelay r (py_int (fmul a 1000)) (py_int (fmul a 1000)) (Delayed i)
              \<in> set (concat (map filter_nodes
                   (fst (create_overlapping_mixtape eng segment_files fade_durations out ov))))) \<and>
           (\<exists>r. Adelay r (py_int (fmul b 1000)) (py_int (fmul b 1000)) (Delayed j)
              \<in> set (concat (map filter_nodes
                   (fst (create_overlapping_mixtape eng segment_files fade_durations out ov))))) \<and>
           0 \<le> py_int (fmul a 1000) \<and> py_int (fmul a 1000) \<le> py_int (fmul b 1000)"
proof -
  let ?G = "concat (map filter_nodes
              (fst (create_overlapping_mixtape eng segment_files fade_durations out ov)))"
  let ?n = "length segment_files"
  let ?a = "segment_delay ds ov i" and ?b = "segment_delay ds ov j"
  from assms(2) have len: "?n \<noteq> 1" by simp
  from assms(1) have "length (map (ffprobe eng) segment_files) = length (map ProbeSeconds ds)"
    by simp
  then have lds: "length ds = ?n" by simp
  from assms(6,7,8) have i: "i < ?n" and j: "0 < j" by simp_all
  have G: "?G = filter_graph ds fade_durations ov ?n"
    by (rule mixtape_graph [OF assms(1) len assms(3)])
  have runa: "snd (segment_delay_time eng segment_files ov i) = Inr ?a"
    and runb: "snd (segment_delay_time eng segment_files ov j) = Inr ?b"
    by (simp_all add: segment_delay_time_ok [OF assms(1)])
  have a0: "0 \<le> ?a" by (rule segment_delay_nonneg)
  have ab: "?a \<le> ?b"
    unfolding no_roundingD(1) [OF assms(5,6) i] no_roundingD(1) [OF assms(5) j assms(8)]
    using assms(7,8,4) unfolding lds [symmetric] by (rule exact_delay_mono)
  have first: "\<forall>r ms ms'. Adelay r ms ms' (Delayed 0) \<notin> set ?G"
    unfolding G using Adelay_not_first by blast
  have exa: "\<exists>r. Adelay r (py_int (fmul ?a 1000)) (py_int (fmul ?a 1000)) (Delayed i) \<in> set ?G"
    unfolding G Adelay_in_graph [OF i] using assms(6) by simp
  have exb: "\<exists>r. Adelay r (py_int (fmul ?b 1000)) (py_int (fmul ?b 1000)) (Delayed j) \<in> set ?G"
    unfolding G Adelay_in_graph [OF assms(8)] using j by simp
  have pa: "py_int (fmul ?a 1000) = \<lfloor>?a * 1000\<rfloor>"
    unfolding no_roundingD(2) [OF assms(5,6) i] using a0 by (intro py_int_nonneg) simp
  have "0 \<le> ?b" by (rule segment_delay_nonneg)
  then have pb: "py_int (fmul ?b 1000) = \<lfloor>?b * 1000\<rfloor>"
    unfolding no_roundingD(2) [OF assms(5) j assms(8)] by (intro py_int_nonneg) simp
  from a0 have ms0: "0 \<le> py_int (fmul ?a 1000)"
    unfolding pa by simp
  from ab have ms: "py_int (fmul ?a 1000) \<le> py_int (fmul ?b 1000)"
    unfolding pa pb by (intro floor_mono) simp
  from runa runb a0 ab first exa exb ms0 ms show ?thesis by blast
qed

text \<open>
  Durations 30, 25 and 20 with an overlap of 3: the offsets 27 and 49 are in order, and
  so are the delays 27000 and 49000.
\<close>

theorem delays_monotone_without_rounding_witness:
  "map (ffprobe (table_engine [(''s0'', 30), (''s1'', 25), (''s2'', 20)] (\<lambda>c. True)))
       [''s0'', ''s1'', ''s2''] = map ProbeSeconds [30, 25, 20] \<and>
   list_all (\<lambda>d. 3 \<le> d) [30, 25, 20 :: rat] \<and>
   no_rounding [30, 25, 20] 3 (length [''s0'', ''s1'', ''s2'']) \<and>
   (\<exists>a b. snd (segment_delay_time (table_engine [(''s0'', 30), (''s1'', 25), (''s2'', 20)] (\<lambda>c. True))
          [''s0'', ''s1'', ''s2''] 3 1) = Inr a \<and>
      snd (segment_delay_time (table_engine [(''s0'', 30), (''s1'', 25), (''s2'', 20)] (\<lambda>c. True))
          [''s0'', ''s1'', ''s2''] 3 2) = Inr b \<and>
      a = 27 \<and> b = 49 \<and> a \<le> b \<and>
      py_int (fmul a 1000) = 27000 \<and> py_int (fmul b 1000) = 49000 \<and>
      py_int (fmul a 1000) \<le> py_int (fmul b 1000))"
proof -
  let ?eng = "table_engine [(''s0'', 30), (''s1'', 25), (''s2'', 20)] (\<lambda>c. True)"
  let ?segs = "[''s0'', ''s1'', ''s2'']"
  let ?fades = "[\<lparr>fadeIn = 2, fadeOut = 2\<rparr>, \<lparr>fadeIn = 2, fadeOut = 2\<rparr>, \<lparr>fadeIn = 2, fadeOut = 2\<rparr>]"
  have p: "map (ffprobe ?eng) ?segs = map ProbeSeconds [30, 25, 20]"
    by (simp add: table_engine_probe)
  have n: "2 \<le> length ?segs" and le: "length ?segs \<le> length ?fades"
    and i: "0 < (1 :: nat)" and ij: "(1 :: nat) \<le> 2" and j: "2 < length ?segs"
    by simp_all
  have ge: "\<forall>d \<in> set [30, 25, 20 :: rat]. 3 \<le> d" by simp
  have l3: "length ?segs = 3" by simp
  have nr: "no_rounding [30, 25, 20] 3 (length ?segs)"
    unfolding l3 by (rule no_rounding_example)
  have runa: "snd (segment_delay_time ?eng ?segs 3 1) = Inr 27"
    and runb: "snd (segment_delay_time ?eng ?segs 3 2) = Inr 49"
    by (simp_all add: segment_delay_time_ok [OF p] segment_delay_def delay_time_def
        fadd_def fsub_def fmul_def)
  from delays_monotone_without_rounding [OF p n le ge nr i ij j,
      where out = "''out''"]
  obtain a b where a: "snd (segment_delay_time ?eng ?segs 3 1) = Inr a"
    and b: "snd (segment_delay_time ?eng ?segs 3 2) = Inr b"
    and ab: "a \<le> b" and ms: "py_int (fmul a 1000) \<le> py_int (fmul b 1000)"
    by blast
  from a runa have a27: "a = 27" by simp
  from b runb have b49: "b = 49" by simp
  have pa: "py_int (fmul a 1000) = 27000" and pb: "py_int (fmul b 1000) = 49000"
    unfolding a27 b49 by (simp_all add: fmul_def py_int_def)
  have ge': "list_all (\<lambda>d. 3 \<le> d) [30, 25, 20 :: rat]" by simp
  from a b a27 b49 ab pa pb ms
  have "\<exists>a b. snd (segment_delay_time ?eng ?segs 3 1) = Inr a \<and>
      snd (segment_delay_time ?eng ?segs 3 2) = Inr b \<and>
      a = 27 \<and> b = 49 \<and> a \<le> b \<and>
      py_int (fmul a 1000) = 27000 \<and> py_int (fmul b 1000) = 49000 \<and>
      py_int (fmul a 1000) \<le> py_int (fmul b 1000)"
    by blast
  with p ge' nr show ?thesis by (intro conjI)
qed

text \<open>
  Segments of 31.696 s (the double nearest to it), 3 s and 5 s with an overlap of 3 s,
  so that every duration is at least the overlap. The sum \<open>31.696 + 3\<close> is rounded down
  to a double, and the offset of the third segment, 28.695999999999998, is below that
  of the second, 28.696; the delays written are 28696 ms and then 28695 ms.
\<close>

theorem delays_decrease_counterexample:
  "list_all (\<lambda>d. 3 \<le> d) [8921630861820953 / 281474976710656, 3, 5 :: rat] \<and>
   snd (segment_delay_time
          (table_engine [(''s0'', 8921630861820953 / 281474976710656), (''s1'', 3), (''s2'', 5)]
             (\<lambda>c. True))
          [''s0'', ''s1'', ''s2''] 3 1) = Inr (8077205931688985 / 281474976710656) \<and>
   snd (segment_delay_time
          (table_engine [(''s0'', 8921630861820953 / 281474976710656), (''s1'', 3), (''s2'', 5)]
             (\<lambda>c. True))
          [''s0'', ''s1'', ''s2''] 3 2) = Inr (1009650741461123 / 35184372088832) \<and>
   (1009650741461123 / 35184372088832 :: rat) < 8077205931688985 / 281474976710656 \<and>
   Adelay (Input 1) 28696 28696 (Delayed 1) \<in> set (concat (map filter_nodes
      (fst (create_overlapping_mixtape
         (table_engine [(''s0'', 8921630861820953 / 281474976710656), (''s1'', 3), (''s2'', 5)]
            (\<lambda>c. True))
         [''s0'', ''s1'', ''s2'']
         [\<lparr>fadeIn = 0, fadeOut = 0\<rparr>, \<lparr>fadeIn = 0, fadeOut = 0\<rparr>, \<lparr>fadeIn = 0, fadeOut = 0\<rparr>]
         ''out'' 3)))) \<and>
   Adelay (Input 2) 28695 28695 (Delayed 2) \<in> set (concat (map filter_nodes
      (fst (create_overlapping_mixtape
         (table_engine [(''s0'', 8921630861820953 / 281474976710656), (''s1'', 3), (''s2'', 5)]
            (\<lambda>c. True))
         [''s0'', ''s1'', ''s2'']
         [\<lparr>fadeIn = 0, fadeOut = 0\<rparr>, \<lparr>fadeIn = 0, fadeOut = 0\<rparr>, \<lparr>fadeIn = 0, fadeOut = 0\<rparr>]
         ''out'' 3))))"
proof -
  let ?ds = "[8921630861820953 / 281474976710656, 3, 5 :: rat]"
  let ?eng = "table_engine [(''s0'', 8921630861820953 / 281474976710656), (''s1'', 3), (''s2'', 5)]
      (\<lambda>c. True)"
  let ?segs = "[''s0'', ''s1'', ''s2'']"
  let ?fades = "[\<lparr>fadeIn = 0, fadeOut = 0\<rparr>, \<lparr>fadeIn = 0, fadeOut = 0\<rparr>, \<lparr>fadeIn = 0, fadeOut = 0\<rparr>]"
  let ?G = "concat (map filter_nodes (fst (create_overlapping_mixtape ?eng ?segs ?fades ''out'' 3)))"
  have p: "map (ffprobe ?eng) ?segs = map ProbeSeconds ?ds"
    by (simp add: table_engine_probe)
  have len: "length ?segs \<noteq> 1" and le: "length ?segs \<le> length ?fades"
    and i1: "1 < length ?segs" and i2: "2 < length ?segs"
    by simp_all
  have d1: "segment_delay ?ds 3 1 = 8077205931688985 / 281474976710656"
    by (simp add: segment_delay_def delay_time_def
        fadd_zero_left double_31696 fmul_three fsub_31696)
  have d2: "segment_delay ?ds 3 2 = 1009650741461123 / 35184372088832"
    by (simp add: segment_delay_def delay_time_def
        fadd_zero_left double_31696 fadd_31696 fmul_three fsub_34696)
  have run1: "snd (segment_delay_time ?eng ?segs 3 1) = Inr (8077205931688985 / 281474976710656)"
    unfolding segment_delay_time_ok [OF p] d1 by simp
  have run2: "snd (segment_delay_time ?eng ?segs 3 2) = Inr (1009650741461123 / 35184372088832)"
    unfolding segment_delay_time_ok [OF p] d2 by simp
  have t1: "track_ref ?ds ?fades 1 = Input 1" and t2: "track_ref ?ds ?fades 2 = Input 2"
    by (simp_all add: track_ref_def fade_stage_def fade_filters_def)
  have ms1: "py_int (fmul (segment_delay ?ds 3 1) 1000) = 28696"
    unfolding d1 fmul_28696 by (simp add: py_int_def)
  have ms2: "py_int (fmul (segment_delay ?ds 3 2) 1000) = 28695"
    unfolding d2 fmul_28695 by (rule py_int_28695)
  have g1: "Adelay (Input 1) 28696 28696 (Delayed 1) \<in> set ?G"
    unfolding mixtape_graph [OF p len le] Adelay_in_graph [OF i1] t1 ms1 by simp
  have g2: "Adelay (Input 2) 28695 28695 (Delayed 2) \<in> set ?G"
    unfolding mixtape_graph [OF p len le] Adelay_in_graph [OF i2] t2 ms2 by simp
  have ge: "list_all (\<lambda>d. 3 \<le> d) ?ds" by simp
  have lt: "(1009650741461123 / 35184372088832 :: rat) < 8077205931688985 / 281474976710656"
    by simp
  from ge run1 run2 lt g1 g2 show ?thesis by (intro conjI)
qed

section \<open>The duration of the mix\<close>

lemma segment_nodes_inputs:
  "foldl node_duration env (segment_nodes ds fades ov k) (Input j) = env (Input j)"
  by (simp add: segment_nodes_def fade_stage_def mix_stage_def Let_def split_def)

lemma segment_nodes_first:
  assumes "env (Input 0) = Some d"
  shows "foldl node_duration env (segment_nodes ds fades ov 0) (track_ref ds fades 0) = Some d"
  using assms
  by (simp add: segment_nodes_def track_ref_def fade_stage_def Let_def split_def)

lemma segment_nodes_mixed:
  assumes "env (Input k) = Some d" and "0 < k"
    and "env (current_output_at ds fades k) = Some t"
  shows "foldl node_duration env (segment_nodes ds fades ov k) (Mixed k) =
           Some (max t (of_int (py_int (fmul (segment_delay ds ov k) 1000)) / 1000 + d))"
  using assms
  by (auto simp: segment_nodes_def track_ref_def current_output_at_def fade_stage_def
      mix_stage_def Let_def split_def)

lemma graph_durations:
  assumes "\<forall>j < n. env (Input j) = Some (ds ! j)" and "k \<le> n"
  shows "(\<forall>j. foldl node_duration env (concat (map (segment_nodes ds fades ov) [0..<k])) (Input j)
              = env (Input j)) \<and>
         (0 < k \<longrightarrow>
            foldl node_duration env (concat (map (segment_nodes ds fades ov) [0..<k]))
              (current_output_at ds fades k) = Some (timeline_end ds ov k))"
  using assms(2)
proof (induction k)
  case 0
  show ?case by simp
next
  case (Suc k)
  let ?E = "foldl node_duration env (concat (map (segment_nodes ds fades ov) [0..<k]))"
  from Suc have IH: "\<forall>j. ?E (Input j) = env (Input j)"
    "0 < k \<longrightarrow> ?E (current_output_at ds fades k) = Some (timeline_end ds ov k)"
    and k: "k < n" by simp_all
  have step: "foldl node_duration env (concat (map (segment_nodes ds fades ov) [0..<Suc k])) =
      foldl node_duration ?E (segment_nodes ds fades ov k)"
    by simp
  from IH(1) assms(1) k have inp: "?E (Input k) = Some (ds ! k)" by simp
  have a: "\<forall>j. foldl node_duration ?E (segment_nodes ds fades ov k) (Input j) = env (Input j)"
    using IH(1) by (simp add: segment_nodes_inputs)
  have b: "foldl node_duration ?E (segment_nodes ds fades ov k)
      (current_output_at ds fades (Suc k)) = Some (timeline_end ds ov (Suc k))"
  proof (cases "k = 0")
    case True
    with inp have "?E (Input 0) = Some (ds ! 0)" by simp
    from segment_nodes_first [where env = ?E and d = "ds ! 0" and ds = ds and fades = fades
        and ov = ov, OF this] True show ?thesis
      by (simp add: current_output_at_def)
  next
    case False
    then have pos: "0 < k" by simp
    with IH(2) have "?E (current_output_at ds fades k) = Some (timeline_end ds ov k)" by simp
    from segment_nodes_mixed [where env = ?E and d = "ds ! k" and ds = ds and fades = fades
        and ov = ov and t = "timeline_end ds ov k", OF inp pos this] False show ?thesis
      by (simp add: current_output_at_def)
  qed
  from a b show ?case unfolding step by simp
qed

lemma mix_output_duration:
  assumes "map (ffprobe eng) segs = map ProbeSeconds ds" and "0 < length segs"
  shows "output_duration eng (FfmpegMix segs (filter_graph ds fades ov (length segs)) Out out) =
           Some (timeline_end ds ov (length segs))"
proof -
  let ?n = "length segs"
  have inputs: "\<forall>j < ?n. input_durations eng segs (Input j) = Some (ds ! j)"
  proof (intro allI impI)
    fix j assume j: "j < ?n"
    from assms(1) have "length (map (ffprobe eng) segs) = length (map ProbeSeconds ds)" by simp
    then have l: "length ds = ?n" by simp
    from j have "ffprobe eng (segs ! j) = map (ffprobe eng) segs ! j" by simp
    also from j l have "\<dots> = ProbeSeconds (ds ! j)" unfolding assms(1) by simp
    finally show "input_durations eng segs (Input j) = Some (ds ! j)"
      using j by (simp add: input_durations_def probed_def)
  qed
  from graph_durations [OF inputs order_refl, of fades ov] assms(2)
  have "foldl node_duration (input_durations eng segs)
          (concat (map (segment_nodes ds fades ov) [0..<?n])) (current_output_at ds fades ?n)
        = Some (timeline_end ds ov ?n)"
    by simp
  then show ?thesis
    by (simp add: output_duration_def filter_graph_def)
qed

lemma sum_list_take_nonneg:
  fixes ds :: "rat list"
  assumes "\<forall>d \<in> set ds. 0 \<le> d"
  shows "0 \<le> sum_list (take k ds)"
  using assms by (intro sum_list_nonneg) (auto dest: in_set_takeD)

lemma timeline_end_sequential:
  assumes "\<forall>d \<in> set ds. 0 \<le> d" and "no_rounding ds 0 n" and "n \<le> length ds"
    and "\<forall>i \<in> {1..<n}. sum_list (take i ds) * 1000 \<in> \<int>"
    and "0 < k" and "k \<le> n"
  shows "timeline_end ds 0 k = sum_list (take k ds)"
  using assms(5,6)
proof (induction k rule: nat_induct_non_zero)
  case 1
  from 1 assms(3) have "0 < length ds" by linarith
  then have "take 1 ds = [ds ! 0]"
    by (cases ds) simp_all
  then show ?case by simp
next
  case (Suc k)
  from Suc.prems have kn: "k < n" by simp
  with assms(3) have kl: "k < length ds" by simp
  from Suc.hyps kn have mem: "k \<in> {1..<n}" by simp
  let ?s = "sum_list (take k ds)"
  from sum_list_take_nonneg [OF assms(1)] have s0: "0 \<le> ?s" .
  from no_roundingD [OF assms(2) Suc.hyps kn] s0
  have d: "segment_delay ds 0 k = ?s" and p: "fmul (segment_delay ds 0 k) 1000 = ?s * 1000"
    by simp_all
  from assms(4) mem have "?s * 1000 \<in> \<int>" by blast
  then obtain z :: int where z: "?s * 1000 = of_int z" by (auto elim: Ints_cases)
  from s0 have "py_int (?s * 1000) = \<lfloor>?s * 1000\<rfloor>" by (intro py_int_nonneg) simp
  then have "of_int (py_int (?s * 1000)) = ?s * 1000" unfolding z by simp
  then have ms: "of_int (py_int (fmul (segment_delay ds 0 k) 1000)) / 1000 = ?s"
    unfolding p by simp
  from kl assms(1) have "0 \<le> ds ! k" by simp
  moreover from kl have "sum_list (take (Suc k) ds) = ?s + ds ! k"
    by (simp add: take_Suc_conv_app_nth)
  moreover from Suc.IH kn have "timeline_end ds 0 k = ?s" by simp
  ultimately show ?case
    using Suc.hyps ms by simp
qed

lemma mixtape_mix_command:
  assumes "map (ffprobe eng) segs = map ProbeSeconds ds"
    and "length segs \<noteq> 1" and "length segs \<le> length fades"
  shows "filter is_mix (fst (create_overlapping_mixtape eng segs fades out ov)) =
           [FfmpegMix segs (filter_graph ds fades ov (length segs)) Out out]"
proof -
  have "filter is_mix (concat (map (segment_probes segs) [0..<length segs])) = []"
    by (auto simp: filter_empty_conv segment_probes_def is_mix_def)
  then show ?thesis
    by (simp add: mixtape_run [OF assms] is_mix_def)
qed

text \<open>
  C7. In a build of two or more segments of non-negative duration with an overlap of 0,
  whose float operations carry no rounding error and in which every segment starts on a
  whole millisecond, the one mix command issued writes a file that lasts, by the
  engine's rules (a delay shifts a stream, a mix lasts as long as its longest input),
  the sum of the segment durations.
\<close>

theorem zero_overlap_graph_duration:
  assumes "map (ffprobe eng) segment_files = map ProbeSeconds ds"
    and "2 \<le> length segment_files"
    and "length segment_files \<le> length fade_durations"
    and "\<forall>d \<in> set ds. 0 \<le> d"
    and "no_rounding ds 0 (length segment_files)"
    and "\<forall>i \<in> {1..<length segment_files}. sum_list (take i ds) * 1000 \<in> \<int>"
  shows "\<exists>graph. filter is_mix
             (fst (create_overlapping_mixtape eng segment_files fade_durations out 0)) =
           [FfmpegMix segment_files graph Out out] \<and>
         output_duration eng (FfmpegMix segment_files graph Out out) = Some (sum_list ds)"
proof -
  let ?n = "length segment_files"
  from assms(2) have len: "?n \<noteq> 1" and pos: "0 < ?n" by linarith+
  from assms(1) have "length (map (ffprobe eng) segment_files) = length (map ProbeSeconds ds)"
    by simp
  then have lds: "length ds = ?n" by simp
  then have le: "?n \<le> length ds" by simp
  have "timeline_end ds 0 ?n = sum_list (take ?n ds)"
    by (rule timeline_end_sequential [OF assms(4,5) le assms(6) pos order_refl])
  with lds have "timeline_end ds 0 ?n = sum_list ds" by simp
  with mix_output_duration [OF assms(1) pos, of fade_durations 0 out]
    mixtape_mix_command [OF assms(1) len assms(3), of out 0]
  show ?thesis by simp
qed

text \<open>Durations 30, 25 and 20 with no overlap: the mix lasts 75 seconds.\<close>

theorem zero_overlap_graph_duration_witness:
  "map (ffprobe (table_engine [(''s0'', 30), (''s1'', 25), (''s2'', 20)] (\<lambda>c. True)))
       [''s0'', ''s1'', ''s2''] = map ProbeSeconds [30, 25, 20] \<and>
   list_all (\<lambda>d. 0 \<le> d) [30, 25, 20 :: rat] \<and>
   no_rounding [30, 25, 20] 0 (length [''s0'', ''s1'', ''s2'']) \<and>
   list_all (\<lambda>i. sum_list (take i [30, 25, 20 :: rat]) * 1000 \<in> \<int>) [1, 2] \<and>
   map (output_duration (table_engine [(''s0'', 30), (''s1'', 25), (''s2'', 20)] (\<lambda>c. True)))
     (filter is_mix (fst (create_overlapping_mixtape
        (table_engine [(''s0'', 30), (''s1'', 25), (''s2'', 20)] (\<lambda>c. True))
        [''s0'', ''s1'', ''s2'']
        [\<lparr>fadeIn = 2, fadeOut = 2\<rparr>, \<lparr>fadeIn = 2, fadeOut = 2\<rparr>, \<lparr>fadeIn = 2, fadeOut = 2\<rparr>]
        ''out'' 0))) = [Some 75]"
proof -
  let ?eng = "table_engine [(''s0'', 30), (''s1'', 25), (''s2'', 20)] (\<lambda>c. True)"
  let ?segs = "[''s0'', ''s1'', ''s2'']"
  let ?fades = "[\<lparr>fadeIn = 2, fadeOut = 2\<rparr>, \<lparr>fadeIn = 2, fadeOut = 2\<rparr>, \<lparr>fadeIn = 2, fadeOut = 2\<rparr>]"
  have p: "map (ffprobe ?eng) ?segs = map ProbeSeconds [30, 25, 20]"
    by (simp add: table_engine_probe)
  have n: "2 \<le> length ?segs" and le: "length ?segs \<le> length ?fades"
    by simp_all
  have ge: "\<forall>d \<in> set [30, 25, 20 :: rat]. 0 \<le> d" by simp
  have l3: "length ?segs = 3" by simp
  have nr3: "no_rounding [30, 25, 20] 0 3"
    unfolding no_rounding_def
  proof
    fix i :: nat
    assume "i \<in> {1..<3}"
    then have "i = 1 \<or> i = 2" by auto
    then show "segment_delay [30, 25, 20] 0 i = max 0 (sum_list (take i [30, 25, 20]) - 0 * of_nat i) \<and>
        fmul (segment_delay [30, 25, 20] 0 i) 1000 = segment_delay [30, 25, 20] 0 i * 1000"
      by (auto simp: segment_delay_def delay_time_def fadd_def fsub_def fmul_def)
  qed
  then have nr: "no_rounding [30, 25, 20] 0 (length ?segs)"
    unfolding l3 .
  have ms: "\<forall>i \<in> {1..<length ?segs}. sum_list (take i [30, 25, 20 :: rat]) * 1000 \<in> \<int>"
  proof
    fix i :: nat
    assume "i \<in> {1..<length ?segs}"
    then have "i = 1 \<or> i = 2" by auto
    then show "sum_list (take i [30, 25, 20 :: rat]) * 1000 \<in> \<int>"
      by auto
  qed
  have ms': "list_all (\<lambda>i. sum_list (take i [30, 25, 20 :: rat]) * 1000 \<in> \<int>) [1, 2]"
    by simp
  have ge': "list_all (\<lambda>d. 0 \<le> d) [30, 25, 20 :: rat]" by simp
  from zero_overlap_graph_duration [OF p n le ge nr ms, where out = "''out''"]
  have "map (output_duration ?eng)
     (filter is_mix (fst (create_overlapping_mixtape ?eng ?segs ?fades ''out'' 0))) = [Some 75]"
    by auto
  with p ge' nr ms' show ?thesis by (intro conjI)
qed

text \<open>
  Segments of 0.0005 s (the double nearest to it) and 1 s with no overlap. The offset
  of the second segment is 0.0005 s, its product with 1000 is 0.5, and the delay
  written is 0 ms: the mix lasts 1 s, not 1.0005 s.
\<close>

theorem zero_overlap_shorter_counterexample:
  "list_all (\<lambda>d. 0 \<le> d) [1152921504606847 / 2305843009213693952, 1 :: rat] \<and>
   snd (segment_delay_time
          (table_engine [(''s0'', 1152921504606847 / 2305843009213693952), (''s1'', 1)] (\<lambda>c. True))
          [''s0'', ''s1''] 0 1) = Inr (1152921504606847 / 2305843009213693952) \<and>
   filter is_mix (fst (create_overlapping_mixtape
        (table_engine [(''s0'', 1152921504606847 / 2305843009213693952), (''s1'', 1)] (\<lambda>c. True))
        [''s0'', ''s1'']
        [\<lparr>fadeIn = 0, fadeOut = 0\<rparr>, \<lparr>fadeIn = 0, fadeOut = 0\<rparr>] ''out'' 0)) =
     [FfmpegMix [''s0'', ''s1'']
        [Adelay (Input 1) 0 0 (Delayed 1), Amix (Input 0) (Delayed 1) (Mixed 1),
         Aresample (Mixed 1) 44100 Out] Out ''out''] \<and>
   output_duration
     (table_engine [(''s0'', 1152921504606847 / 2305843009213693952), (''s1'', 1)] (\<lambda>c. True))
     (FfmpegMix [''s0'', ''s1'']
        [Adelay (Input 1) 0 0 (Delayed 1), Amix (Input 0) (Delayed 1) (Mixed 1),
         Aresample (Mixed 1) 44100 Out] Out ''out'') = Some 1 \<and>
   (1 :: rat) < sum_list [1152921504606847 / 2305843009213693952, 1]"
proof -
  let ?ds = "[1152921504606847 / 2305843009213693952, 1 :: rat]"
  let ?eng = "table_engine [(''s0'', 1152921504606847 / 2305843009213693952), (''s1'', 1)] (\<lambda>c. True)"
  let ?segs = "[''s0'', ''s1'']"
  let ?fades = "[\<lparr>fadeIn = 0, fadeOut = 0\<rparr>, \<lparr>fadeIn = 0, fadeOut = 0\<rparr>]"
  let ?graph = "[Adelay (Input 1) 0 0 (Delayed 1), Amix (Input 0) (Delayed 1) (Mixed 1),
         Aresample (Mixed 1) 44100 Out]"
  have p: "map (ffprobe ?eng) ?segs = map ProbeSeconds ?ds"
    by (simp add: table_engine_probe)
  have len: "length ?segs \<noteq> 1" and le: "length ?segs \<le> length ?fades"
    by simp_all
  have d: "segment_delay ?ds 0 1 = 1152921504606847 / 2305843009213693952"
    by (simp add: segment_delay_def delay_time_def
        fadd_zero_left fsub_zero_right fmul_zero_left double_00005)
  have run: "snd (segment_delay_time ?eng ?segs 0 1) = Inr (1152921504606847 / 2305843009213693952)"
    unfolding segment_delay_time_ok [OF p] d by simp
  have ms: "py_int (fmul (segment_delay ?ds 0 1) 1000) = 0"
    unfolding d fmul_00005 by (rule py_int_half)
  have l2: "[0..<length ?segs] = [0, 1]"
    by (simp add: upt_rec)
  have sn0: "segment_nodes ?ds ?fades 0 0 = []"
    by (simp add: segment_nodes_def fade_stage_def fade_filters_def)
  have sn1: "segment_nodes ?ds ?fades 0 1 =
      [Adelay (Input 1) 0 0 (Delayed 1), Amix (Input 0) (Delayed 1) (Mixed 1)]"
    using ms
    by (simp add: segment_nodes_def mix_stage_def fade_stage_def fade_filters_def
        track_ref_def current_output_at_def)
  have g: "filter_graph ?ds ?fades 0 (length ?segs) = ?graph"
    unfolding filter_graph_def l2
    using sn1 by (simp add: sn0 current_output_at_def track_ref_def fade_stage_def
        fade_filters_def)
  have mix: "filter is_mix (fst (create_overlapping_mixtape ?eng ?segs ?fades ''out'' 0)) =
      [FfmpegMix ?segs ?graph Out ''out'']"
    unfolding mixtape_mix_command [OF p len le] g ..
  have dur: "output_duration ?eng (FfmpegMix ?segs ?graph Out ''out'') = Some 1"
    by (simp add: output_duration_def input_durations_def probed_def table_engine_def)
  have ge: "list_all (\<lambda>d. 0 \<le> d) ?ds" by simp
  have lt: "(1 :: rat) < sum_list ?ds" by simp
  from ge run mix dur lt show ?thesis by (intro conjI)
qed

section \<open>The empty request\<close>

lemma parse_songs_blank:
  "(\<forall>r \<in> set form. youtube_url_i r = []) \<Longrightarrow> parse_songs form = Inr []"
  by (induction form) simp_all

text \<open>
  C9. A request whose form leaves no song (there is no row, or every row has an empty
  URL) is answered with the message to add at least one song and a redirect to the
  form, and no command has been given to the audio engine: no probe, no mix, no
  concatenation, no extraction.
\<close>

theorem empty_request_rejected:
  assumes "\<forall>r \<in> set form. youtube_url_i r = []"
  shows "parse_songs form = Inr [] \<and>
         create_mixtape env eng form = ([], RedirectIndex AddAtLeastOneSong)"
  using parse_songs_blank [OF assms]
  by (simp add: create_mixtape_def)

theorem empty_request_rejected_witness:
  "create_mixtape
     \<lparr>valid_url = (\<lambda>u. True), download = (\<lambda>u p. Some p), file_ready = (\<lambda>p. True),
      download_path = (\<lambda>i. ''download''), segment_path = (\<lambda>i. ''segment''),
      final_mixtape = ''final_mixtape.mp3''\<rparr>
     (table_engine [] (\<lambda>c. True)) [] = ([], RedirectIndex AddAtLeastOneSong) \<and>
   create_mixtape
     \<lparr>valid_url = (\<lambda>u. True), download = (\<lambda>u p. Some p), file_ready = (\<lambda>p. True),
      download_path = (\<lambda>i. ''download''), segment_path = (\<lambda>i. ''segment''),
      final_mixtape = ''final_mixtape.mp3''\<rparr>
     (table_engine [] (\<lambda>c. True))
     [\<lparr>youtube_url_i = [], start_time_i = Malformed, end_time_i = Absent,
       fade_in_i = Number 2, fade_out_i = Number 2\<rparr>] =
     ([], RedirectIndex AddAtLeastOneSong)"
proof -
  let ?env = "\<lparr>valid_url = (\<lambda>u. True), download = (\<lambda>u p. Some p), file_ready = (\<lambda>p. True),
      download_path = (\<lambda>i. ''download''), segment_path = (\<lambda>i. ''segment''),
      final_mixtape = ''final_mixtape.mp3''\<rparr>"
  let ?eng = "table_engine [] (\<lambda>c. True)"
  let ?row = "\<lparr>youtube_url_i = [], start_time_i = Malformed, end_time_i = Absent,
       fade_in_i = Number 2, fade_out_i = Number 2\<rparr>"
  have a: "\<forall>r \<in> set []. youtube_url_i r = []"
    and b: "\<forall>r \<in> set [?row]. youtube_url_i r = []"
    by simp_all
  from empty_request_rejected [OF a, of ?env ?eng] empty_request_rejected [OF b, of ?env ?eng]
  show ?thesis
    by simp
qed

end
